theory Spec2Isabelle
  imports Complex_Main "HOL-Library.Multiset"
begin

section \<open>Trajectory playback of \<open>lab_baxter_common\<close>: a shallow embedding\<close>

text \<open>
  The theory embeds \<^verbatim>\<open>traj_playback/trajectory.py\<close> (class \<^verbatim>\<open>Trajectory\<close>).
  Python floats are modelled by \<^typ>\<open>real\<close>; \<^verbatim>\<open>rospy.Duration(t)\<close> and
  \<^verbatim>\<open>.to_sec()\<close> are exact conversions, so a duration is the real number of its
  seconds. Every exception the Python code can raise is a value of \<open>py_error\<close>, and a
  function that can raise returns \<open>py_error + 'a\<close>.
\<close>

subsection \<open>Python values the code relies on\<close>

datatype py_error =
  IndexError | KeyError | TypeError | ValueError | ZeroDivisionError
  | NameError | AttributeError

text \<open>\<^verbatim>\<open>xs[i]\<close> of Python: a negative index counts from the end.\<close>

definition py_index :: "'a list \<Rightarrow> int \<Rightarrow> py_error + 'a" where
  "py_index xs i =
     (if 0 \<le> i \<and> i < int (length xs) then Inr (xs ! nat i)
      else if i < 0 \<and> - int (length xs) \<le> i then Inr (xs ! nat (int (length xs) + i))
      else Inl IndexError)"

text \<open>
  \<^verbatim>\<open>bisect.bisect\<close> is \<^verbatim>\<open>bisect_right\<close> of the standard library:
  \<^verbatim>\<open>
  while lo < hi:
      mid = (lo+hi)//2
      if x < a[mid]: hi = mid
      else: lo = mid+1
  return lo
  \<close>
  called with \<^verbatim>\<open>lo = 0\<close> and \<^verbatim>\<open>hi = len(a)\<close>.
\<close>

function bisect_loop :: "real list \<Rightarrow> real \<Rightarrow> nat \<Rightarrow> nat \<Rightarrow> nat" where
  "bisect_loop a x lo hi =
     (if lo < hi then
        (let mid = (lo + hi) div 2
         in if x < a ! mid then bisect_loop a x lo mid
            else bisect_loop a x (mid + 1) hi)
      else lo)"
  by pat_completeness auto
termination
  by (relation "measure (\<lambda>(a, x, lo, hi). hi - lo)") auto

declare bisect_loop.simps [simp del]

definition bisect :: "real list \<Rightarrow> real \<Rightarrow> nat" where
  "bisect a x = bisect_loop a x 0 (length a)"

subsection \<open>Messages and the playback session\<close>

record point =
  positions :: "real list"
  time_from_start :: real

record goal =
  joint_names :: "string list"
  points :: "point list"

definition empty_goal :: goal where
  "empty_goal = \<lparr>joint_names = [], points = []\<rparr>"

record trajectory =
  l_goal :: goal
  r_goal :: goal
  l_grip :: goal
  r_grip :: goal
  arm_trajectory_started :: bool
  slow_move_offset :: real
  trajectory_start_offset :: real
  trajectory_actual_offset :: real

text \<open>The fields as \<^verbatim>\<open>__init__\<close> leaves them.\<close>

definition new_trajectory :: trajectory where
  "new_trajectory =
     \<lparr>l_goal = empty_goal, r_goal = empty_goal,
      l_grip = empty_goal, r_grip = empty_goal,
      arm_trajectory_started = False,
      slow_move_offset = 0,
      trajectory_start_offset = 0,
      trajectory_actual_offset = 0\<rparr>"

definition param_ns :: string where
  "param_ns = ''/rsdk_joint_trajectory_action_server/''"

definition gripper_rate :: real where
  "gripper_rate = 20"

subsection \<open>The gripper index lookup\<close>

text \<open>
  Line 95 of \<^verbatim>\<open>_execute_gripper_commands\<close>:
  \<^verbatim>\<open>idx = bisect.bisect(pnt_times, now_from_start) - 1\<close>.
\<close>

definition gripper_idx :: "real list \<Rightarrow> real \<Rightarrow> int" where
  "gripper_idx pnt_times now_from_start = int (bisect pnt_times now_from_start) - 1"

subsection \<open>The collaborators, as the code sees them\<close>

text \<open>
  What \<^verbatim>\<open>parse_file\<close> reads from outside: \<^verbatim>\<open>float(x)\<close> of Python (\<open>None\<close> where it
  raises \<^verbatim>\<open>ValueError\<close>), the current joint angle of each limb
  (\<^verbatim>\<open>Limb.joint_angle\<close>), and the parameter server.
\<close>

record env =
  float_of :: "string \<Rightarrow> real option"
  l_arm_joint_angle :: "string \<Rightarrow> real"
  r_arm_joint_angle :: "string \<Rightarrow> real"
  params :: "string \<rightharpoonup> real"

text \<open>\<^verbatim>\<open>rospy.get_param(key, default)\<close>.\<close>

definition get_param :: "(string \<rightharpoonup> real) \<Rightarrow> string \<Rightarrow> real \<Rightarrow> real" where
  "get_param ps key dflt = (case ps key of None \<Rightarrow> dflt | Some v \<Rightarrow> v)"

text \<open>Sequencing of computations that may raise.\<close>

definition py_bind :: "py_error + 'a \<Rightarrow> ('a \<Rightarrow> py_error + 'b) \<Rightarrow> py_error + 'b" where
  "py_bind m f = (case m of Inl e \<Rightarrow> Inl e | Inr v \<Rightarrow> f v)"

subsection \<open>Strings\<close>

text \<open>\<^verbatim>\<open>str.rstrip()\<close> removes trailing whitespace; \<^verbatim>\<open>str.split(',')\<close> always
  returns at least one field.\<close>

definition is_space :: "char \<Rightarrow> bool" where
  "is_space c = (c \<in> set [CHR '' '', CHR 0x09, CHR 0x0A, CHR 0x0B, CHR 0x0C, CHR 0x0D])"

definition rstrip :: "string \<Rightarrow> string" where
  "rstrip s = rev (dropWhile is_space (rev s))"

fun split_comma :: "string \<Rightarrow> string list" where
  "split_comma [] = [[]]"
| "split_comma (c # cs) =
     (if c = CHR '','' then [] # split_comma cs
      else (case split_comma cs of
              [] \<Rightarrow> [[c]]
            | w # ws \<Rightarrow> (c # w) # ws))"

text \<open>\<^verbatim>\<open>'left' == name[:-3]\<close> and \<^verbatim>\<open>'right' == name[:-3]\<close>: the name without its last
  three characters (the empty string when the name is shorter).\<close>

definition is_left :: "string \<Rightarrow> bool" where
  "is_left name = (''left'' = take (length name - 3) name)"

definition is_right :: "string \<Rightarrow> bool" where
  "is_right name = (''right'' = take (length name - 3) name)"

subsection \<open>\<^verbatim>\<open>_clean_line\<close>\<close>

text \<open>\<^verbatim>\<open>dict(pairs)\<close>: a later pair overwrites an earlier one with the same key.\<close>

definition dict :: "('k \<times> 'v) list \<Rightarrow> ('k \<rightharpoonup> 'v)" where
  "dict kvs = map_of (rev kvs)"

definition clean_line ::
  "env \<Rightarrow> string \<Rightarrow> string list \<Rightarrow> (string \<rightharpoonup> real) \<times> real option list" where
  "clean_line E line jnames =
     (let line' = map (float_of E) (split_comma (rstrip line));
          combined = zip (tl jnames) (tl line');
          cleaned = List.map_filter
            (\<lambda>x. case snd x of None \<Rightarrow> None | Some v \<Rightarrow> Some (fst x, v)) combined;
          command = dict cleaned
      in (command, line'))"

subsection \<open>\<^verbatim>\<open>_add_point\<close>\<close>

definition append_point :: "point \<Rightarrow> goal \<Rightarrow> goal" where
  "append_point p g = g\<lparr>points := points g @ [p]\<rparr>"

definition add_point :: "trajectory \<Rightarrow> real list \<Rightarrow> string \<Rightarrow> real \<Rightarrow> trajectory" where
  "add_point s ps side t =
     (let point = \<lparr>positions = ps, time_from_start = t\<rparr>
      in if side = ''left'' then s\<lparr>l_goal := append_point point (l_goal s)\<rparr>
         else if side = ''right'' then s\<lparr>r_goal := append_point point (r_goal s)\<rparr>
         else if side = ''left_gripper'' then s\<lparr>l_grip := append_point point (l_grip s)\<rparr>
         else if side = ''right_gripper'' then s\<lparr>r_grip := append_point point (r_grip s)\<rparr>
         else s)"

subsection \<open>\<^verbatim>\<open>find_start_offset\<close>\<close>

text \<open>
  The loop over \<^verbatim>\<open>joint_names\<close> fills the three lists \<^verbatim>\<open>cmd\<close>, \<^verbatim>\<open>cur\<close> and
  \<^verbatim>\<open>dflt_vel\<close>; \<^verbatim>\<open>pos[name]\<close> raises \<^verbatim>\<open>KeyError\<close> for a joint without a command.
\<close>

definition vel_param :: "string \<Rightarrow> string" where
  "vel_param name = param_ns @ name @ ''_default_velocity''"

fun collect_joints ::
  "env \<Rightarrow> (string \<rightharpoonup> real) \<Rightarrow> string list \<Rightarrow> real list \<times> real list \<times> real list
     \<Rightarrow> py_error + (real list \<times> real list \<times> real list)" where
  "collect_joints E pos [] acc = Inr acc"
| "collect_joints E pos (name # names) (cmd, cur, dflt_vel) =
     (if is_left name then
        (case pos name of
           None \<Rightarrow> Inl KeyError
         | Some c \<Rightarrow>
             collect_joints E pos names
               (cmd @ [c], cur @ [l_arm_joint_angle E name],
                dflt_vel @ [get_param (params E) (vel_param name) 0.25]))
      else if is_right name then
        (case pos name of
           None \<Rightarrow> Inl KeyError
         | Some c \<Rightarrow>
             collect_joints E pos names
               (cmd @ [c], cur @ [r_arm_joint_angle E name],
                dflt_vel @ [get_param (params E) (vel_param name) 0.25]))
      else collect_joints E pos names (cmd, cur, dflt_vel))"

text \<open>\<^verbatim>\<open>map(operator.div, diffs, dflt_vel)\<close> on floats raises \<^verbatim>\<open>ZeroDivisionError\<close> at a zero
  divisor; \<^verbatim>\<open>max\<close> of an empty list raises \<^verbatim>\<open>ValueError\<close>.\<close>

fun div_list :: "real list \<Rightarrow> real list \<Rightarrow> py_error + real list" where
  "div_list (d # ds) (v # vs) =
     (if v = 0 then Inl ZeroDivisionError
      else py_bind (div_list ds vs) (\<lambda>qs. Inr (d / v # qs)))"
| "div_list _ _ = Inr []"

fun py_max :: "real list \<Rightarrow> py_error + real" where
  "py_max [] = Inl ValueError"
| "py_max (x # xs) = Inr (foldl (\<lambda>m y. if y > m then y else m) x xs)"

definition find_start_offset ::
  "env \<Rightarrow> string list \<Rightarrow> (string \<rightharpoonup> real) \<Rightarrow> py_error + real" where
  "find_start_offset E jnames pos =
     py_bind (collect_joints E pos jnames ([], [], [])) (\<lambda>(cmd, cur, dflt_vel).
       let diffs = map2 (-) cmd cur;
           diffs = map abs diffs
       in py_bind (div_list diffs dflt_vel) py_max)"

subsection \<open>\<^verbatim>\<open>parse_file\<close>\<close>

text \<open>The list comprehension \<^verbatim>\<open>[cmd[jnt] for jnt in names]\<close>.\<close>

fun getitems :: "(string \<rightharpoonup> real) \<Rightarrow> string list \<Rightarrow> py_error + real list" where
  "getitems cmd [] = Inr []"
| "getitems cmd (j # js) =
     (case cmd j of
        None \<Rightarrow> Inl KeyError
      | Some v \<Rightarrow> py_bind (getitems cmd js) (\<lambda>vs. Inr (v # vs)))"

text \<open>\<^verbatim>\<open>values[0]\<close> used as a number: \<^verbatim>\<open>None + x\<close> raises \<^verbatim>\<open>TypeError\<close>.\<close>

definition row_value0 :: "real option list \<Rightarrow> py_error + real" where
  "row_value0 values =
     (case values of
        [] \<Rightarrow> Inl IndexError
      | None # _ \<Rightarrow> Inl TypeError
      | Some t # _ \<Rightarrow> Inr t)"

text \<open>The loop that sorts the header's names into the two arm goals.\<close>

fun add_joint_names :: "string list \<Rightarrow> trajectory \<Rightarrow> trajectory" where
  "add_joint_names [] s = s"
| "add_joint_names (name # names) s =
     add_joint_names names
       (if is_left name then
          s\<lparr>l_goal := (l_goal s)\<lparr>joint_names := joint_names (l_goal s) @ [name]\<rparr>\<rparr>
        else if is_right name then
          s\<lparr>r_goal := (r_goal s)\<lparr>joint_names := joint_names (r_goal s) @ [name]\<rparr>\<rparr>
        else s)"

text \<open>The branch \<^verbatim>\<open>if idx == 0\<close> (lines 196 to 209); it returns the session and
  \<^verbatim>\<open>start_offset\<close>.\<close>

definition first_row ::
  "env \<Rightarrow> string list \<Rightarrow> (string \<rightharpoonup> real) \<Rightarrow> real option list \<Rightarrow> trajectory
     \<Rightarrow> py_error + (trajectory \<times> real)" where
  "first_row E jnames cmd values s =
     (let cur_cmd = map (l_arm_joint_angle E) (joint_names (l_goal s));
          s1 = add_point s cur_cmd ''left'' 0;
          cur_cmd = map (r_arm_joint_angle E) (joint_names (r_goal s1));
          s2 = add_point s1 cur_cmd ''right'' 0
      in py_bind (find_start_offset E jnames cmd) (\<lambda>start_offset.
         py_bind (row_value0 values) (\<lambda>v0.
           Inr (s2\<lparr>slow_move_offset := start_offset,
                   trajectory_start_offset := start_offset + v0\<rparr>, start_offset))))"

text \<open>Lines 210 to 218: the four points of a data row.\<close>

definition add_row ::
  "(string \<rightharpoonup> real) \<Rightarrow> real option list \<Rightarrow> real \<Rightarrow> trajectory
     \<Rightarrow> py_error + trajectory" where
  "add_row cmd values start_offset s =
     py_bind (getitems cmd (joint_names (l_goal s))) (\<lambda>cur_cmd.
     py_bind (row_value0 values) (\<lambda>v0.
       let s1 = add_point s cur_cmd ''left'' (v0 + start_offset)
       in py_bind (getitems cmd (joint_names (r_goal s1))) (\<lambda>cur_cmd.
       let s2 = add_point s1 cur_cmd ''right'' (v0 + start_offset)
       in py_bind (getitems cmd [''left_gripper'']) (\<lambda>cur_cmd.
       let s3 = add_point s2 cur_cmd ''left_gripper'' (v0 + start_offset)
       in py_bind (getitems cmd [''right_gripper'']) (\<lambda>cur_cmd.
       Inr (add_point s3 cur_cmd ''right_gripper'' (v0 + start_offset)))))))"

text \<open>The loop over \<^verbatim>\<open>enumerate(lines[1:])\<close>. \<^verbatim>\<open>start_offset\<close> is assigned by row 0 and
  read by every row; the value passed for it at row 0 is never read.\<close>

fun parse_rows ::
  "env \<Rightarrow> string list \<Rightarrow> nat \<Rightarrow> real \<Rightarrow> string list \<Rightarrow> trajectory
     \<Rightarrow> py_error + trajectory" where
  "parse_rows E jnames idx start_offset [] s = Inr s"
| "parse_rows E jnames idx start_offset (line # rest) s =
     (case clean_line E line jnames of (cmd, values) \<Rightarrow>
        py_bind (if idx = 0 then first_row E jnames cmd values s
                 else Inr (s, start_offset)) (\<lambda>(s1, start_offset).
        py_bind (add_row cmd values start_offset s1) (\<lambda>s2.
          parse_rows E jnames (Suc idx) start_offset rest s2)))"

text \<open>\<^verbatim>\<open>parse_file\<close> on the lines \<^verbatim>\<open>f.readlines()\<close> returned; \<^verbatim>\<open>lines[0]\<close> raises
  \<^verbatim>\<open>IndexError\<close> on an empty file.\<close>

definition parse_file :: "env \<Rightarrow> string list \<Rightarrow> trajectory \<Rightarrow> py_error + trajectory" where
  "parse_file E lines s =
     (case lines of
        [] \<Rightarrow> Inl IndexError
      | header # rows \<Rightarrow>
          (let jnames = split_comma (rstrip header)
           in parse_rows E jnames 0 0 rows (add_joint_names jnames s)))"

text \<open>The recorded time of a data row: its first field, read by \<^verbatim>\<open>float\<close>.\<close>

definition row_time :: "env \<Rightarrow> string \<Rightarrow> real option" where
  "row_time E line = float_of E (hd (split_comma (rstrip line)))"

text \<open>The command mapping \<^verbatim>\<open>_clean_line\<close> returns for a row.\<close>

definition row_cmd :: "env \<Rightarrow> string list \<Rightarrow> string \<Rightarrow> (string \<rightharpoonup> real)" where
  "row_cmd E jnames line = fst (clean_line E line jnames)"

subsection \<open>What a successful parse builds\<close>

text \<open>
  The names below describe the session \<^verbatim>\<open>parse_file\<close> returns when no exception is
  raised: the keys every data row has to supply, the point a row contributes to a
  goal, the session after one row and after a list of rows, and the session after the
  branch of row 0. They are used to state results about \<open>parse_file\<close>; the code is
  \<open>parse_rows\<close>.
\<close>

definition required_keys :: "trajectory \<Rightarrow> string list" where
  "required_keys s =
     joint_names (l_goal s) @ joint_names (r_goal s) @ [''left_gripper'', ''right_gripper'']"

definition row_point :: "(string \<rightharpoonup> real) \<Rightarrow> real \<Rightarrow> string list \<Rightarrow> point" where
  "row_point cmd t names = \<lparr>positions = map (\<lambda>j. the (cmd j)) names, time_from_start = t\<rparr>"

definition with_row :: "(string \<rightharpoonup> real) \<Rightarrow> real \<Rightarrow> trajectory \<Rightarrow> trajectory" where
  "with_row cmd t s =
     s\<lparr>l_goal := append_point (row_point cmd t (joint_names (l_goal s))) (l_goal s),
       r_goal := append_point (row_point cmd t (joint_names (r_goal s))) (r_goal s),
       l_grip := append_point (row_point cmd t [''left_gripper'']) (l_grip s),
       r_grip := append_point (row_point cmd t [''right_gripper'']) (r_grip s)\<rparr>"


definition row_ok :: "env \<Rightarrow> string list \<Rightarrow> trajectory \<Rightarrow> string \<Rightarrow> bool" where
  "row_ok E jnames s line =
     (row_time E line \<noteq> None \<and> set (required_keys s) \<subseteq> dom (row_cmd E jnames line))"

definition add_rows ::
  "env \<Rightarrow> string list \<Rightarrow> real \<Rightarrow> string list \<Rightarrow> trajectory \<Rightarrow> trajectory" where
  "add_rows E jnames start_offset rows s =
     foldl (\<lambda>s line. with_row (row_cmd E jnames line)
                        (the (row_time E line) + start_offset) s) s rows"

definition with_start :: "env \<Rightarrow> real \<Rightarrow> real \<Rightarrow> trajectory \<Rightarrow> trajectory" where
  "with_start E start_offset v0 s =
     s\<lparr>l_goal := append_point
         \<lparr>positions = map (l_arm_joint_angle E) (joint_names (l_goal s)),
            time_from_start = 0\<rparr> (l_goal s),
       r_goal := append_point
         \<lparr>positions = map (r_arm_joint_angle E) (joint_names (r_goal s)),
            time_from_start = 0\<rparr> (r_goal s),
       slow_move_offset := start_offset,
       trajectory_start_offset := start_offset + v0\<rparr>"

subsection \<open>\<^verbatim>\<open>_feedback\<close>\<close>

text \<open>
  One invocation of the callback is a short program of its own:
  \<^verbatim>\<open>_get_trajectory_flag()\<close> reads the flag while holding the lock and returns the copy;
  if the flag was unset, the reported \<^verbatim>\<open>data.actual.time_from_start\<close> is compared with
  \<^verbatim>\<open>_trajectory_start_offset\<close>; if it has reached it, \<^verbatim>\<open>_set_trajectory_flag\<close> takes
  the lock again and sets the flag; last, \<^verbatim>\<open>_trajectory_actual_offset\<close> is assigned,
  with no lock held. An invocation is therefore a reported time and the place it has
  reached; each step below is one of these accesses to the session.
\<close>

datatype pc = GetFlag | Compare | SetFlag | SetOffset | Returned

record invocation =
  reported :: real
  stage :: pc

definition invoke :: "real \<Rightarrow> invocation" where
  "invoke t = \<lparr>reported = t, stage = GetFlag\<rparr>"

fun callback_step :: "trajectory \<Rightarrow> invocation \<Rightarrow> trajectory \<times> invocation" where
  "callback_step s c =
     (case stage c of
        GetFlag \<Rightarrow>
          (if arm_trajectory_started s then (s, c\<lparr>stage := Returned\<rparr>)
           else (s, c\<lparr>stage := Compare\<rparr>))
      | Compare \<Rightarrow>
          (if reported c \<ge> trajectory_start_offset s then (s, c\<lparr>stage := SetFlag\<rparr>)
           else (s, c\<lparr>stage := Returned\<rparr>))
      | SetFlag \<Rightarrow> (s\<lparr>arm_trajectory_started := True\<rparr>, c\<lparr>stage := SetOffset\<rparr>)
      | SetOffset \<Rightarrow> (s\<lparr>trajectory_actual_offset := reported c\<rparr>, c\<lparr>stage := Returned\<rparr>)
      | Returned \<Rightarrow> (s, c))"

text \<open>
  \<^verbatim>\<open>start\<close> registers the callback with both action clients, which deliver feedback on
  threads of their own. A session therefore holds the invocations in progress, and a
  schedule says which of them takes the next step; an index that names no invocation
  is skipped.
\<close>

definition schedule_step ::
  "trajectory \<times> invocation list \<Rightarrow> nat \<Rightarrow> trajectory \<times> invocation list" where
  "schedule_step sc i =
     (case sc of (s, cs) \<Rightarrow>
        if i < length cs
        then (case callback_step s (cs ! i) of (s', c') \<Rightarrow> (s', cs[i := c']))
        else (s, cs))"

definition run_schedule ::
  "trajectory \<times> invocation list \<Rightarrow> nat list \<Rightarrow> trajectory \<times> invocation list" where
  "run_schedule sc sched = foldl schedule_step sc sched"

text \<open>An invocation that runs from its call to its return with no other in between, and
  a sequence of such invocations.\<close>

definition run_invocation :: "trajectory \<Rightarrow> real \<Rightarrow> trajectory" where
  "run_invocation s t =
     fst (run_schedule (s, [invoke t]) [0, 0, 0, 0])"

definition serial_invocations :: "trajectory \<Rightarrow> real list \<Rightarrow> trajectory" where
  "serial_invocations s ts = foldl run_invocation s ts"

subsection \<open>The action clients and the grippers\<close>

datatype side = Left | Right

datatype goal_status =
  PENDING | ACTIVE | PREEMPTED | SUCCEEDED | ABORTED | REJECTED
  | PREEMPTING | RECALLING | RECALLED | LOST

text \<open>
  What a \<^verbatim>\<open>SimpleActionClient\<close> answers: \<^verbatim>\<open>wait_for_server(timeout)\<close>, whether
  \<^verbatim>\<open>gh\<close> is set, \<^verbatim>\<open>get_state()\<close>, \<^verbatim>\<open>wait_for_result(timeout)\<close>, and the
  \<^verbatim>\<open>error_code\<close> of \<^verbatim>\<open>get_result()\<close>, which is \<open>None\<close> when \<^verbatim>\<open>get_result()\<close> returns
  \<^verbatim>\<open>None\<close> (the client holds no result for the goal).
\<close>

record client =
  wait_for_server :: "real \<Rightarrow> bool"
  gh_set :: bool
  get_state :: goal_status
  wait_for_result :: "real \<Rightarrow> bool"
  get_result :: "int option"

record robot =
  left_client :: client
  right_client :: client
  l_gripper_error :: bool
  r_gripper_error :: bool
  l_gripper_type :: string
  r_gripper_type :: string

text \<open>What the code does to the outside, in the order it does it.\<close>

datatype effect =
  WaitForServer side real
  | LogErr string
  | SignalShutdown string
  | GripperReset side
  | SendGoal side goal
  | CancelGoal side
  | Sleep real
  | WaitForResult side real
  | LogWarn string
  | CommandPosition side real

subsection \<open>\<^verbatim>\<open>__init__\<close>\<close>

text \<open>
  Both \<^verbatim>\<open>wait_for_server\<close> calls are made before the test. On failure the code logs,
  signals shutdown and calls \<^verbatim>\<open>sys.exit(1)\<close>; the module does not import \<^verbatim>\<open>sys\<close>, so
  the exception that leaves the constructor is a \<^verbatim>\<open>NameError\<close>.
\<close>

definition server_msg :: string where
  "server_msg = ''Action server not available. Verify action server availability.''"

definition init :: "robot \<Rightarrow> effect list \<times> (py_error + trajectory)" where
  "init R =
     (let l_server_up = wait_for_server (left_client R) 10;
          r_server_up = wait_for_server (right_client R) 10;
          probes = [WaitForServer Left 10, WaitForServer Right 10]
      in if \<not> l_server_up \<or> \<not> r_server_up then
           (probes @ [LogErr server_msg, SignalShutdown server_msg], Inl NameError)
         else
           (probes
              @ (if l_gripper_error R then [GripperReset Left] else [])
              @ (if r_gripper_error R then [GripperReset Right] else []),
            Inr new_trajectory))"

text \<open>The two \<^verbatim>\<open>send_goal\<close> calls of \<^verbatim>\<open>start\<close>, the only place where a goal is submitted.\<close>

definition dispatch :: "trajectory \<Rightarrow> effect list" where
  "dispatch s = [SendGoal Left (l_goal s), SendGoal Right (r_goal s)]"

fun is_send_goal :: "effect \<Rightarrow> bool" where
  "is_send_goal (SendGoal _ _) = True"
| "is_send_goal _ = False"

subsection \<open>\<^verbatim>\<open>stop\<close>\<close>

definition stop :: "robot \<Rightarrow> effect list" where
  "stop R =
     (if gh_set (left_client R) \<and> get_state (left_client R) = ACTIVE
      then [CancelGoal Left] else [])
     @ (if gh_set (right_client R) \<and> get_state (right_client R) = ACTIVE
        then [CancelGoal Right] else [])
     @ [Sleep 0.1]"

fun is_cancel :: "effect \<Rightarrow> bool" where
  "is_cancel (CancelGoal _) = True"
| "is_cancel _ = False"

subsection \<open>\<^verbatim>\<open>wait\<close>\<close>

definition wait_msg :: string where
  "wait_msg = ''Trajectory action failed or did not finish before timeout/interrupt.''"

definition wait_timeout :: "trajectory \<Rightarrow> (string \<rightharpoonup> real) \<Rightarrow> py_error + real" where
  "wait_timeout s ps =
     py_bind (py_index (points (r_goal s)) (- 1)) (\<lambda>p.
       let last_time = time_from_start p;
           time_buffer = get_param ps (param_ns @ ''goal_time'') 0 + 1.5
       in Inr (slow_move_offset s + last_time + time_buffer))"

text \<open>\<^verbatim>\<open>get_result().error_code\<close> raises \<^verbatim>\<open>AttributeError\<close> when \<^verbatim>\<open>get_result()\<close> is
  \<^verbatim>\<open>None\<close>.\<close>

definition error_code :: "int option \<Rightarrow> py_error + int" where
  "error_code r = (case r of None \<Rightarrow> Inl AttributeError | Some c \<Rightarrow> Inr c)"

definition wait ::
  "trajectory \<Rightarrow> (string \<rightharpoonup> real) \<Rightarrow> robot \<Rightarrow> effect list \<times> (py_error + bool)" where
  "wait s ps R =
     (case wait_timeout s ps of
        Inl e \<Rightarrow> ([], Inl e)
      | Inr timeout \<Rightarrow>
          (let l_finish = wait_for_result (left_client R) timeout;
               r_finish = wait_for_result (right_client R) timeout;
               waits = [WaitForResult Left timeout, WaitForResult Right timeout]
           in case error_code (get_result (left_client R)) of
                Inl e \<Rightarrow> (waits, Inl e)
              | Inr l_code \<Rightarrow>
                  (case error_code (get_result (right_client R)) of
                     Inl e \<Rightarrow> (waits, Inl e)
                   | Inr r_code \<Rightarrow>
                       (let l_result = (l_code = 0); r_result = (r_code = 0)
                        in if l_finish \<and> r_finish \<and> l_result \<and> r_result
                           then (waits, Inr True)
                           else (waits @ [LogWarn wait_msg], Inr False)))))"

subsection \<open>\<^verbatim>\<open>_execute_gripper_commands\<close>\<close>

text \<open>The body of the loop at elapsed time \<^verbatim>\<open>now_from_start\<close>: the index, then one
  command for each gripper that is not of type \<^verbatim>\<open>'custom'\<close>.\<close>

definition gripper_command ::
  "string \<Rightarrow> side \<Rightarrow> point list \<Rightarrow> int \<Rightarrow> py_error + effect list" where
  "gripper_command gtype sd cmd idx =
     (if gtype \<noteq> ''custom'' then
        py_bind (py_index cmd idx) (\<lambda>p.
        py_bind (py_index (positions p) 0) (\<lambda>v. Inr [CommandPosition sd v]))
      else Inr [])"

definition gripper_iteration ::
  "trajectory \<Rightarrow> robot \<Rightarrow> real \<Rightarrow> py_error + effect list" where
  "gripper_iteration s R now_from_start =
     (let r_cmd = points (r_grip s);
          l_cmd = points (l_grip s);
          pnt_times = map time_from_start r_cmd;
          idx = gripper_idx pnt_times now_from_start
      in py_bind (gripper_command (r_gripper_type R) Right r_cmd idx) (\<lambda>r.
         py_bind (gripper_command (l_gripper_type R) Left l_cmd idx) (\<lambda>l.
           Inr (r @ l))))"

text \<open>
  The loop, driven by the clock: each element of the list is what one evaluation of the
  loop condition observes (\<^verbatim>\<open>rospy.get_time()\<close> and \<^verbatim>\<open>rospy.is_shutdown()\<close>). The
  effects are those issued while the observations last.
\<close>

fun gripper_loop ::
  "trajectory \<Rightarrow> robot \<Rightarrow> real \<Rightarrow> real \<Rightarrow> (real \<times> bool) list \<Rightarrow> py_error + effect list" where
  "gripper_loop s R start_time end_time [] = Inr []"
| "gripper_loop s R start_time end_time ((now, shutdown) # obs) =
     (let now_from_start = now - start_time
      in if now_from_start < end_time + (1 / gripper_rate) \<and> \<not> shutdown then
           py_bind (gripper_iteration s R now_from_start) (\<lambda>es.
           py_bind (gripper_loop s R start_time end_time obs) (\<lambda>rest.
             Inr (es @ [Sleep (1 / gripper_rate)] @ rest)))
         else Inr [])"

definition execute_gripper_commands ::
  "trajectory \<Rightarrow> robot \<Rightarrow> real \<Rightarrow> (real \<times> bool) list \<Rightarrow> py_error + effect list" where
  "execute_gripper_commands s R now0 obs =
     (let start_time = now0 - trajectory_actual_offset s;
          pnt_times = map time_from_start (points (r_grip s))
      in py_bind (py_index pnt_times (- 1)) (\<lambda>end_time.
           gripper_loop s R start_time end_time obs))"

subsection \<open>A concrete \<^verbatim>\<open>float\<close> for the examples\<close>

text \<open>
  The decimal literals among the strings \<^verbatim>\<open>float\<close> accepts: an optional minus sign,
  digits, then optionally a point and more digits. The theorems below hold for every
  \<open>float_of\<close>; this one is used to run the code on concrete files.
\<close>

definition digit_of :: "char \<Rightarrow> nat option" where
  "digit_of c =
     map_of [(CHR ''0'', 0), (CHR ''1'', 1), (CHR ''2'', 2), (CHR ''3'', 3), (CHR ''4'', 4),
             (CHR ''5'', 5), (CHR ''6'', 6), (CHR ''7'', 7), (CHR ''8'', 8), (CHR ''9'', 9)] c"

fun digits_of :: "nat \<Rightarrow> string \<Rightarrow> nat option" where
  "digits_of acc [] = Some acc"
| "digits_of acc (c # cs) =
     (case digit_of c of None \<Rightarrow> None | Some d \<Rightarrow> digits_of (10 * acc + d) cs)"

definition unsigned_decimal :: "string \<Rightarrow> real option" where
  "unsigned_decimal s =
     (let ip = takeWhile (\<lambda>c. c \<noteq> CHR ''.'') s;
          fp = drop (Suc (length ip)) s
      in if ip = [] then None
         else (case (digits_of 0 ip, digits_of 0 fp) of
                 (Some i, Some f) \<Rightarrow> Some (real i + real f / 10 ^ length fp)
               | _ \<Rightarrow> None))"

definition decimal_float :: "string \<Rightarrow> real option" where
  "decimal_float s =
     (case s of
        [] \<Rightarrow> None
      | c # cs \<Rightarrow>
          if c = CHR ''-'' then map_option uminus (unsigned_decimal cs)
          else unsigned_decimal s)"

subsection \<open>The start offset, as the specification words it\<close>

text \<open>
  The arm joints are the header names the code classifies as left or right; the current
  angle of a joint is read from its own limb; its velocity is the configured default
  velocity, 0.25 when none is configured. The specified offset is the greatest ratio
  \<open>|commanded - current| / velocity\<close> over the arm joints.
\<close>

definition is_arm :: "string \<Rightarrow> bool" where
  "is_arm name = (is_left name \<or> is_right name)"

definition cur_angle :: "env \<Rightarrow> string \<Rightarrow> real" where
  "cur_angle E name =
     (if is_left name then l_arm_joint_angle E name else r_arm_joint_angle E name)"

definition default_velocity :: "env \<Rightarrow> string \<Rightarrow> real" where
  "default_velocity E name = get_param (params E) (vel_param name) 0.25"

definition joint_ratio :: "env \<Rightarrow> (string \<rightharpoonup> real) \<Rightarrow> string \<Rightarrow> real" where
  "joint_ratio E pos name =
     (case pos name of
        None \<Rightarrow> 0
      | Some c \<Rightarrow> \<bar>c - cur_angle E name\<bar> / default_velocity E name)"

definition spec_start_offset :: "env \<Rightarrow> string list \<Rightarrow> (string \<rightharpoonup> real) \<Rightarrow> real" where
  "spec_start_offset E jnames pos = Max (joint_ratio E pos ` set (filter is_arm jnames))"

subsection \<open>Example recordings and robots\<close>

definition example_env :: env where
  "example_env =
     \<lparr>float_of = decimal_float,
      l_arm_joint_angle = (\<lambda>_. 0.1),
      r_arm_joint_angle = (\<lambda>_. 0.2),
      params = [vel_param ''right_s0'' \<mapsto> 0.5]\<rparr>"

definition example_header :: string where
  "example_header = ''time,left_s0,right_s0,left_gripper,right_gripper''"

definition example_file :: "string list" where
  "example_file =
     [example_header @ [CHR 0x0A],
      ''1.0,0.6,0.1,50,50'' @ [CHR 0x0A],
      ''3.0,0.3,0.3,80,80'' @ [CHR 0x0A]]"

definition example_client :: client where
  "example_client =
     \<lparr>wait_for_server = (\<lambda>_. True), gh_set = True, get_state = ACTIVE,
      wait_for_result = (\<lambda>_. True), get_result = Some 0\<rparr>"

definition example_robot :: robot where
  "example_robot =
     \<lparr>left_client = example_client, right_client = example_client,
      l_gripper_error = False, r_gripper_error = False,
      l_gripper_type = ''electric'', r_gripper_type = ''electric''\<rparr>"

text \<open>The session \<^verbatim>\<open>parse_file\<close> builds from \<open>example_file\<close>.\<close>

definition example_session :: trajectory where
  "example_session =
     \<lparr>l_goal = \<lparr>joint_names = [''left_s0''],
          points = [\<lparr>positions = [1/10], time_from_start = 0\<rparr>,
                    \<lparr>positions = [6/10], time_from_start = 3\<rparr>,
                    \<lparr>positions = [3/10], time_from_start = 5\<rparr>]\<rparr>,
      r_goal = \<lparr>joint_names = [''right_s0''],
          points = [\<lparr>positions = [2/10], time_from_start = 0\<rparr>,
                    \<lparr>positions = [1/10], time_from_start = 3\<rparr>,
                    \<lparr>positions = [3/10], time_from_start = 5\<rparr>]\<rparr>,
      l_grip = \<lparr>joint_names = [],
          points = [\<lparr>positions = [50], time_from_start = 3\<rparr>,
                    \<lparr>positions = [80], time_from_start = 5\<rparr>]\<rparr>,
      r_grip = \<lparr>joint_names = [],
          points = [\<lparr>positions = [50], time_from_start = 3\<rparr>,
                    \<lparr>positions = [80], time_from_start = 5\<rparr>]\<rparr>,
      arm_trajectory_started = False, slow_move_offset = 2,
      trajectory_start_offset = 3, trajectory_actual_offset = 0\<rparr>"

text \<open>
  The scenario of the specification: both joints already at the first commanded
  angle 0.1, no velocity configured, and a recording that starts at time 0.
\<close>

definition scenario_env :: env where
  "scenario_env =
     \<lparr>float_of = decimal_float,
      l_arm_joint_angle = (\<lambda>_. 0.1),
      r_arm_joint_angle = (\<lambda>_. 0.1),
      params = Map.empty\<rparr>"

definition scenario_file :: "string list" where
  "scenario_file =
     [example_header @ [CHR 0x0A],
      ''0.0,0.1,0.1,50,50'' @ [CHR 0x0A],
      ''2.0,0.3,0.3,80,80'' @ [CHR 0x0A]]"

definition scenario_session :: trajectory where
  "scenario_session =
     \<lparr>l_goal = \<lparr>joint_names = [''left_s0''],
          points = [\<lparr>positions = [1/10], time_from_start = 0\<rparr>,
                    \<lparr>positions = [1/10], time_from_start = 0\<rparr>,
                    \<lparr>positions = [3/10], time_from_start = 2\<rparr>]\<rparr>,
      r_goal = \<lparr>joint_names = [''right_s0''],
          points = [\<lparr>positions = [1/10], time_from_start = 0\<rparr>,
                    \<lparr>positions = [1/10], time_from_start = 0\<rparr>,
                    \<lparr>positions = [3/10], time_from_start = 2\<rparr>]\<rparr>,
      l_grip = \<lparr>joint_names = [],
          points = [\<lparr>positions = [50], time_from_start = 0\<rparr>,
                    \<lparr>positions = [80], time_from_start = 2\<rparr>]\<rparr>,
      r_grip = \<lparr>joint_names = [],
          points = [\<lparr>positions = [50], time_from_start = 0\<rparr>,
                    \<lparr>positions = [80], time_from_start = 2\<rparr>]\<rparr>,
      arm_trajectory_started = False, slow_move_offset = 0,
      trajectory_start_offset = 0, trajectory_actual_offset = 0\<rparr>"

section \<open>Properties\<close>

subsection \<open>Binary search\<close>

lemma bisect_loop_done: "\<not> lo < hi \<Longrightarrow> bisect_loop a x lo hi = lo"
  by (subst bisect_loop.simps) simp

lemma bisect_loop_left:
  "lo < hi \<Longrightarrow> x < a ! ((lo + hi) div 2) \<Longrightarrow>
     bisect_loop a x lo hi = bisect_loop a x lo ((lo + hi) div 2)"
  by (subst bisect_loop.simps) simp

lemma bisect_loop_right:
  "lo < hi \<Longrightarrow> \<not> x < a ! ((lo + hi) div 2) \<Longrightarrow>
     bisect_loop a x lo hi = bisect_loop a x ((lo + hi) div 2 + 1) hi"
  by (subst bisect_loop.simps) simp

lemma bisect_loop_bounds:
  "lo \<le> hi \<Longrightarrow> lo \<le> bisect_loop a x lo hi \<and> bisect_loop a x lo hi \<le> hi"
proof (induction a x lo hi rule: bisect_loop.induct)
  case (1 a x lo hi)
  show ?case
  proof (cases "lo < hi")
    case False
    with "1.prems" show ?thesis by (simp add: bisect_loop_done)
  next
    case True
    define mid where "mid = (lo + hi) div 2"
    have m: "lo \<le> mid" "mid < hi" using True by (simp_all add: mid_def)
    show ?thesis
    proof (cases "x < a ! mid")
      case L: True
      from "1.IH"(1) [OF True mid_def L] m
      have "lo \<le> bisect_loop a x lo mid \<and> bisect_loop a x lo mid \<le> mid" by simp
      with True L m show ?thesis
        by (simp add: bisect_loop_left mid_def [symmetric])
    next
      case R: False
      from "1.IH"(2) [OF True mid_def R] m
      have "mid + 1 \<le> bisect_loop a x (mid + 1) hi \<and> bisect_loop a x (mid + 1) hi \<le> hi" by simp
      with True R m show ?thesis
        by (simp add: bisect_loop_right mid_def [symmetric])
    qed
  qed
qed

lemma bisect_loop_split:
  assumes "sorted a" "lo \<le> hi" "hi \<le> length a"
    and "\<forall>i<lo. a ! i \<le> x" and "\<forall>i. hi \<le> i \<and> i < length a \<longrightarrow> x < a ! i"
  shows "\<forall>i<length a. (a ! i \<le> x) = (i < bisect_loop a x lo hi)"
  using assms
proof (induction a x lo hi rule: bisect_loop.induct)
  case (1 a x lo hi)
  show ?case
  proof (cases "lo < hi")
    case False
    with "1.prems" have "hi = lo" by simp
    have "bisect_loop a x lo hi = lo" using False by (rule bisect_loop_done)
    with "1.prems" \<open>hi = lo\<close> show ?thesis
      by (auto simp add: not_less [symmetric])
  next
    case True
    define mid where "mid = (lo + hi) div 2"
    have m: "lo \<le> mid" "mid < hi" using True by (simp_all add: mid_def)
    show ?thesis
    proof (cases "x < a ! mid")
      case L: True
      have up: "\<forall>i. mid \<le> i \<and> i < length a \<longrightarrow> x < a ! i"
      proof (intro allI impI)
        fix i assume i: "mid \<le> i \<and> i < length a"
        with \<open>sorted a\<close> have "a ! mid \<le> a ! i" by (simp add: sorted_nth_mono)
        with L show "x < a ! i" by simp
      qed
      from m "1.prems" have "mid \<le> length a" by simp
      from "1.IH"(1) [OF True mid_def L \<open>sorted a\<close> m(1) this "1.prems"(4) up]
      show ?thesis using True L
        by (simp add: bisect_loop_left mid_def [symmetric])
    next
      case R: False
      have low: "\<forall>i<mid + 1. a ! i \<le> x"
      proof (intro allI impI)
        fix i assume i: "i < mid + 1"
        with m "1.prems" have "i \<le> mid" "mid < length a" by simp_all
        with \<open>sorted a\<close> have "a ! i \<le> a ! mid" by (simp add: sorted_nth_mono)
        with R show "a ! i \<le> x" by simp
      qed
      from m have "mid + 1 \<le> hi" by simp
      from "1.IH"(2) [OF True mid_def R \<open>sorted a\<close> this "1.prems"(3) low "1.prems"(5)]
      show ?thesis using True R
        by (simp add: bisect_loop_right mid_def [symmetric])
    qed
  qed
qed

lemma bisect_le_length: "bisect a x \<le> length a"
  using bisect_loop_bounds [of 0 "length a" a x] by (simp add: bisect_def)

lemma bisect_sorted_iff:
  "sorted a \<Longrightarrow> i < length a \<Longrightarrow> (a ! i \<le> x) = (i < bisect a x)"
  using bisect_loop_split [of a 0 "length a" x] by (simp add: bisect_def)

lemma bisect_at_sample:
  assumes "sorted a" "i < length a" "\<forall>j<length a. i < j \<longrightarrow> a ! i < a ! j"
  shows "bisect a (a ! i) = Suc i"
proof -
  from bisect_sorted_iff [OF assms(1,2), of "a ! i"] have lo: "i < bisect a (a ! i)" by simp
  have "\<not> Suc i < bisect a (a ! i)"
  proof
    assume h: "Suc i < bisect a (a ! i)"
    with bisect_le_length [of a "a ! i"] have l: "Suc i < length a" by simp
    from bisect_sorted_iff [OF assms(1) l, of "a ! i"] h have "a ! Suc i \<le> a ! i" by simp
    moreover from assms(3) l have "a ! i < a ! Suc i" by simp
    ultimately show False by simp
  qed
  with lo show ?thesis by simp
qed

lemma bisect_before_first:
  assumes "sorted a" "a \<noteq> []" "x < hd a"
  shows "bisect a x = 0"
proof -
  from assms(2) have l: "0 < length a" by simp
  from assms(2,3) have "\<not> a ! 0 \<le> x" by (simp add: hd_conv_nth)
  with bisect_sorted_iff [OF assms(1) l, of x] show ?thesis by simp
qed

lemma bisect_after_last:
  assumes "sorted a" "a \<noteq> []" "last a < x"
  shows "bisect a x = length a"
proof -
  let ?n = "length a - 1"
  from assms(2) have l: "?n < length a" by simp
  from assms(2,3) have "a ! ?n \<le> x" by (simp add: last_conv_nth)
  with bisect_sorted_iff [OF assms(1) l, of x] have "?n < bisect a x" by simp
  with bisect_le_length [of a x] show ?thesis by simp
qed

lemma bisect_floor:
  assumes "sorted a" and "a \<noteq> []" and "hd a \<le> x"
  shows "0 < bisect a x" and "a ! (bisect a x - 1) \<le> x"
    and "\<forall>j<length a. a ! j \<le> x \<longrightarrow> j \<le> bisect a x - 1"
proof -
  from assms(2) have l: "0 < length a" by simp
  from assms(2,3) have "a ! 0 \<le> x" by (simp add: hd_conv_nth)
  with bisect_sorted_iff [OF assms(1) l, of x] show pos: "0 < bisect a x" by simp
  with bisect_le_length [of a x] have "bisect a x - 1 < length a" by simp
  from bisect_sorted_iff [OF assms(1) this, of x] pos show "a ! (bisect a x - 1) \<le> x" by simp
  show "\<forall>j<length a. a ! j \<le> x \<longrightarrow> j \<le> bisect a x - 1"
  proof (intro allI impI)
    fix j assume "j < length a" "a ! j \<le> x"
    with bisect_sorted_iff [OF assms(1), of j x] have "j < bisect a x" by simp
    then show "j \<le> bisect a x - 1" by simp
  qed
qed

lemma py_index_minus_one: "xs \<noteq> [] \<Longrightarrow> py_index xs (- 1) = Inr (last xs)"
proof -
  assume "xs \<noteq> []"
  then have "0 < length xs" by simp
  then have "nat (int (length xs) + - 1) = length xs - 1" "- int (length xs) \<le> - 1"
    by linarith+
  with \<open>xs \<noteq> []\<close> show ?thesis by (simp add: py_index_def last_conv_nth)
qed

subsection \<open>The gripper index lookup (claim C2)\<close>

text \<open>
  Claim C2, as the code has it. For a non-empty sorted list of gripper times, the index
  \<^verbatim>\<open>bisect.bisect(pnt_times, now_from_start) - 1\<close> is: at an elapsed time equal to a
  sample's timestamp, that sample's index, provided no later sample carries the same
  timestamp; at an elapsed time after the last timestamp, the last index; at every
  elapsed time from the first timestamp on, the greatest index whose time is at most the
  elapsed time; at an elapsed time strictly before the first timestamp, \<open>-1\<close> and not
  0: the lookup has no clamp, and \<open>-1\<close> used as a Python index selects the last point.
\<close>

theorem gripper_idx_lookup:
  assumes "sorted ts" and "ts \<noteq> []"
  shows "(\<forall>i<length ts. (\<forall>j<length ts. i < j \<longrightarrow> ts ! i < ts ! j)
            \<longrightarrow> gripper_idx ts (ts ! i) = int i)
       \<and> (\<forall>t. last ts < t \<longrightarrow> gripper_idx ts t = int (length ts) - 1)
       \<and> (\<forall>t. hd ts \<le> t \<longrightarrow>
            0 \<le> gripper_idx ts t \<and> gripper_idx ts t < int (length ts)
            \<and> ts ! nat (gripper_idx ts t) \<le> t
            \<and> (\<forall>j<length ts. ts ! j \<le> t \<longrightarrow> int j \<le> gripper_idx ts t))
       \<and> (\<forall>t. t < hd ts \<longrightarrow> gripper_idx ts t = - 1)
       \<and> (\<forall>t pts. t < hd ts \<and> length pts = length ts
            \<longrightarrow> py_index pts (gripper_idx ts t) = Inr (last pts))"
proof (intro conjI allI impI)
  fix i assume "i < length ts" "\<forall>j<length ts. i < j \<longrightarrow> ts ! i < ts ! j"
  with assms(1) show "gripper_idx ts (ts ! i) = int i"
    by (simp add: gripper_idx_def bisect_at_sample)
next
  fix t assume "last ts < t"
  with assms show "gripper_idx ts t = int (length ts) - 1"
    by (simp add: gripper_idx_def bisect_after_last)
next
  fix t assume "hd ts \<le> t"
  from bisect_floor(1) [OF assms this] show "0 \<le> gripper_idx ts t"
    by (simp add: gripper_idx_def)
next
  fix t assume "hd ts \<le> t"
  from bisect_le_length [of ts t] show "gripper_idx ts t < int (length ts)"
    by (simp add: gripper_idx_def)
next
  fix t assume h: "hd ts \<le> t"
  from bisect_floor(1) [OF assms h]
  have "nat (gripper_idx ts t) = bisect ts t - 1" by (simp add: gripper_idx_def)
  with bisect_floor(2) [OF assms h] show "ts ! nat (gripper_idx ts t) \<le> t" by simp
next
  fix t j assume h: "hd ts \<le> t" and j: "j < length ts" "ts ! j \<le> t"
  from bisect_floor(3) [OF assms h] j have "j \<le> bisect ts t - 1" by simp
  with bisect_floor(1) [OF assms h] show "int j \<le> gripper_idx ts t"
    by (simp add: gripper_idx_def)
next
  fix t assume "t < hd ts"
  with assms show "gripper_idx ts t = - 1"
    by (simp add: gripper_idx_def bisect_before_first)
next
  fix t and pts :: "'a list" assume h: "t < hd ts \<and> length pts = length ts"
  with assms have "gripper_idx ts t = - 1" "pts \<noteq> []"
    by (auto simp add: gripper_idx_def bisect_before_first)
  then show "py_index pts (gripper_idx ts t) = Inr (last pts)"
    by (simp add: py_index_minus_one)
qed

theorem gripper_idx_lookup_witness:
  "sorted [0, 2 :: real] \<and> gripper_idx [0, 2] 2 = 1 \<and> gripper_idx [0, 2] 3 = 1
     \<and> 0 \<le> gripper_idx [0, 2] 1 \<and> [0, 2] ! nat (gripper_idx [0, 2] 1) \<le> (1 :: real)
     \<and> gripper_idx [0, 2] (- 1) = - 1
     \<and> py_index [''a'', ''b''] (gripper_idx [0, 2] (- 1)) = Inr ''b''"
proof -
  have s: "sorted [0, 2 :: real]" and n: "[0, 2 :: real] \<noteq> []" by simp_all
  note L = gripper_idx_lookup [OF s n]
  from L have "gripper_idx [0, 2] ([0, 2] ! 1) = int 1" by (auto simp add: less_Suc_eq)
  moreover from L have "gripper_idx [0, 2] 3 = 1" by auto
  moreover from L [THEN conjunct2, THEN conjunct2, THEN conjunct1, rule_format, of 1]
  have "0 \<le> gripper_idx [0, 2] 1 \<and> [0, 2] ! nat (gripper_idx [0, 2] 1) \<le> (1 :: real)"
    by simp
  moreover from L have "gripper_idx [0, 2] (- 1) = - 1" by auto
  moreover from L [THEN conjunct2, THEN conjunct2, THEN conjunct2, THEN conjunct2, rule_format,
      of "- 1" "[''a'', ''b'']"]
  have "py_index [''a'', ''b''] (gripper_idx [0, 2] (- 1)) = Inr (last [''a'', ''b''])"
    by simp
  ultimately show ?thesis using s by simp
qed

theorem gripper_idx_before_first_counterexample:
  "sorted [1, 2 :: real] \<and> (0 :: real) < hd [1, 2] \<and> gripper_idx [1, 2] 0 \<noteq> 0
     \<and> sorted [1, 1 :: real] \<and> [1, 1 :: real] ! 0 = 1 \<and> gripper_idx [1, 1] 1 \<noteq> 0"
  by (simp add: gripper_idx_def bisect_def bisect_loop.simps)

subsection \<open>The feedback callback (claim C1)\<close>

lemma run_invocation_eq:
  "run_invocation s t =
     (if \<not> arm_trajectory_started s \<and> t \<ge> trajectory_start_offset s
      then s\<lparr>arm_trajectory_started := True, trajectory_actual_offset := t\<rparr>
      else s)"
  by (simp add: run_invocation_def run_schedule_def schedule_step_def invoke_def)

lemma run_invocation_started [simp]: "arm_trajectory_started s \<Longrightarrow> run_invocation s t = s"
  by (simp add: run_invocation_eq)

lemma serial_started: "arm_trajectory_started s \<Longrightarrow> serial_invocations s ts = s"
  by (induction ts arbitrary: s) (simp_all add: serial_invocations_def)

lemma serial_below:
  "\<forall>t\<in>set ts. t < trajectory_start_offset s \<Longrightarrow> serial_invocations s ts = s"
  by (induction ts arbitrary: s) (simp_all add: serial_invocations_def run_invocation_eq)

lemma serial_append: "serial_invocations s (xs @ ys) = serial_invocations (serial_invocations s xs) ys"
  by (simp add: serial_invocations_def)

lemma serial_first_crossing:
  assumes ns: "\<not> arm_trajectory_started s"
    and i: "i < length ts" and ge: "ts ! i \<ge> trajectory_start_offset s"
    and lt: "\<forall>j<i. ts ! j < trajectory_start_offset s"
    and n: "i < n" 
  shows "serial_invocations s (take n ts) =
           s\<lparr>arm_trajectory_started := True, trajectory_actual_offset := ts ! i\<rparr>"
proof -
  from n have "take n ts = take i ts @ take (n - i) (drop i ts)"
    using take_add [of i "n - i" ts] by simp
  moreover from i have "drop i ts = ts ! i # drop (Suc i) ts"
    by (simp add: Cons_nth_drop_Suc)
  moreover from n have "n - i = Suc (n - Suc i)" by simp
  ultimately have "take n ts = take i ts @ ts ! i # take (n - Suc i) (drop (Suc i) ts)"
    by simp
  moreover from lt i have "\<forall>t\<in>set (take i ts). t < trajectory_start_offset s"
    by (auto simp add: in_set_conv_nth)
  ultimately have "serial_invocations s (take n ts) =
      serial_invocations (run_invocation s (ts ! i)) (take (n - Suc i) (drop (Suc i) ts))"
    by (simp add: serial_append serial_below) (simp add: serial_invocations_def)
  also from ns ge have "run_invocation s (ts ! i) =
      s\<lparr>arm_trajectory_started := True, trajectory_actual_offset := ts ! i\<rparr>"
    by (simp add: run_invocation_eq)
  finally show ?thesis by (simp add: serial_started)
qed

lemma serial_before_crossing:
  assumes lt: "\<forall>j<i. ts ! j < trajectory_start_offset s" and n: "n \<le> i" and i: "i < length ts"
  shows "serial_invocations s (take n ts) = s"
proof -
  from lt n i have "\<forall>t\<in>set (take n ts). t < trajectory_start_offset s"
    by (auto simp add: in_set_conv_nth)
  then show ?thesis by (rule serial_below)
qed

text \<open>
  Invocations that do not overlap behave as a latch: the first one at or above
  \<open>trajectory_start_offset\<close> sets the flag and the actual offset, and every later one
  leaves the session as it is.
\<close>

lemma serial_invocations_latch_once:
  assumes "\<not> arm_trajectory_started s"
  shows "(\<forall>i<length ts. ts ! i \<ge> trajectory_start_offset s
            \<and> (\<forall>j<i. ts ! j < trajectory_start_offset s) \<longrightarrow>
            (\<forall>n\<le>i. serial_invocations s (take n ts) = s)
            \<and> (\<forall>n>i. serial_invocations s (take n ts) =
                  s\<lparr>arm_trajectory_started := True, trajectory_actual_offset := ts ! i\<rparr>))
       \<and> ((\<forall>t\<in>set ts. t < trajectory_start_offset s) \<longrightarrow> serial_invocations s ts = s)
       \<and> (\<forall>s' t. arm_trajectory_started s' \<longrightarrow> run_invocation s' t = s')
       \<and> (\<forall>m n. m \<le> n \<and> arm_trajectory_started (serial_invocations s (take m ts)) \<longrightarrow>
             serial_invocations s (take n ts) = serial_invocations s (take m ts))"
proof (intro conjI allI impI)
  fix i n
  assume "i < length ts"
    "ts ! i \<ge> trajectory_start_offset s \<and> (\<forall>j<i. ts ! j < trajectory_start_offset s)" "n \<le> i"
  then show "serial_invocations s (take n ts) = s"
    using serial_before_crossing [of i ts s n] by simp
next
  fix i n
  assume "i < length ts"
    "ts ! i \<ge> trajectory_start_offset s \<and> (\<forall>j<i. ts ! j < trajectory_start_offset s)" "i < n"
  with assms show "serial_invocations s (take n ts) =
      s\<lparr>arm_trajectory_started := True, trajectory_actual_offset := ts ! i\<rparr>"
    using serial_first_crossing [of s i ts n] by simp
next
  assume "\<forall>t\<in>set ts. t < trajectory_start_offset s"
  then show "serial_invocations s ts = s" by (rule serial_below)
next
  fix s' :: trajectory and t assume "arm_trajectory_started s'"
  then show "run_invocation s' t = s'" by simp
next
  fix m n
  assume h: "m \<le> n \<and> arm_trajectory_started (serial_invocations s (take m ts))"
  then have "take n ts = take m ts @ take (n - m) (drop m ts)"
    using take_add [of m "n - m" ts] by simp
  with h show "serial_invocations s (take n ts) = serial_invocations s (take m ts)"
    by (simp add: serial_append serial_started)
qed



text \<open>
  Claim C1 says that the latched actual offset is never overwritten. Two invocations
  that overlap break this: with \<open>trajectory_start_offset = 2\<close>, the invocation
  reporting 5/2 and the one reporting 3 both read the flag and pass the comparison
  before either sets the flag. The first then sets the flag and latches 5/2; the second
  sets the flag again and overwrites the latch with 3.
\<close>

theorem feedback_interleaved_overwrites_latch:
  "run_schedule (new_trajectory\<lparr>trajectory_start_offset := 2\<rparr>, [invoke (5/2), invoke 3])
      [0, 0, 1, 1, 0, 0]
     = (new_trajectory\<lparr>trajectory_start_offset := 2, arm_trajectory_started := True,
          trajectory_actual_offset := 5/2\<rparr>,
        [\<lparr>reported = 5/2, stage = Returned\<rparr>, \<lparr>reported = 3, stage = SetFlag\<rparr>])
   \<and> run_schedule (new_trajectory\<lparr>trajectory_start_offset := 2\<rparr>, [invoke (5/2), invoke 3])
      [0, 0, 1, 1, 0, 0, 1, 1]
     = (new_trajectory\<lparr>trajectory_start_offset := 2, arm_trajectory_started := True,
          trajectory_actual_offset := 3\<rparr>,
        [\<lparr>reported = 5/2, stage = Returned\<rparr>, \<lparr>reported = 3, stage = Returned\<rparr>])"
  by (simp add: run_schedule_def schedule_step_def invoke_def new_trajectory_def)

subsection \<open>Cancellation (claim C8)\<close>

text \<open>
  Claim C8. \<^verbatim>\<open>stop\<close> requests cancellation of an arm exactly when that arm's client has
  a goal handle and reports the state ACTIVE; whatever was cancelled, its last effect is
  the one sleep of 0.1; no cancellation is issued twice by one call. It cannot raise:
  \<^verbatim>\<open>get_state\<close> is only read behind the test for the goal handle. Called while no goal
  is active it only sleeps, so a call that follows another one at that point adds no
  cancellation to those of the first.
\<close>

theorem stop_cancels_active_only:
  "(CancelGoal Left \<in> set (stop R))
      = (gh_set (left_client R) \<and> get_state (left_client R) = ACTIVE)
   \<and> (CancelGoal Right \<in> set (stop R))
      = (gh_set (right_client R) \<and> get_state (right_client R) = ACTIVE)
   \<and> last (stop R) = Sleep 0.1
   \<and> length (filter (\<lambda>e. e = Sleep 0.1) (stop R)) = 1
   \<and> length (filter (\<lambda>e. e = CancelGoal Left) (stop R)) \<le> 1
   \<and> length (filter (\<lambda>e. e = CancelGoal Right) (stop R)) \<le> 1
   \<and> (\<forall>R'. \<not> (gh_set (left_client R') \<and> get_state (left_client R') = ACTIVE)
            \<and> \<not> (gh_set (right_client R') \<and> get_state (right_client R') = ACTIVE)
          \<longrightarrow> stop R' = [Sleep 0.1]
              \<and> filter is_cancel (stop R @ stop R') = filter is_cancel (stop R)
              \<and> stop R' @ stop R' = [Sleep 0.1, Sleep 0.1])"
  by (simp add: stop_def)

theorem stop_cancels_active_only_witness:
  "stop example_robot = [CancelGoal Left, CancelGoal Right, Sleep 0.1]
   \<and> stop (example_robot\<lparr>left_client := example_client\<lparr>get_state := PREEMPTED\<rparr>,
                           right_client := example_client\<lparr>gh_set := False\<rparr>\<rparr>) = [Sleep 0.1]
   \<and> filter is_cancel (stop example_robot
        @ stop (example_robot\<lparr>left_client := example_client\<lparr>get_state := PREEMPTED\<rparr>,
                               right_client := example_client\<lparr>gh_set := False\<rparr>\<rparr>))
       = [CancelGoal Left, CancelGoal Right]"
proof -
  let ?R' = "example_robot\<lparr>left_client := example_client\<lparr>get_state := PREEMPTED\<rparr>,
                           right_client := example_client\<lparr>gh_set := False\<rparr>\<rparr>"
  have idle: "\<not> (gh_set (left_client ?R') \<and> get_state (left_client ?R') = ACTIVE)
      \<and> \<not> (gh_set (right_client ?R') \<and> get_state (right_client ?R') = ACTIVE)"
    by (simp add: example_robot_def example_client_def)
  have first: "stop example_robot = [CancelGoal Left, CancelGoal Right, Sleep 0.1]"
    by (simp add: stop_def example_robot_def example_client_def)
  note L = stop_cancels_active_only [of example_robot, THEN conjunct2, THEN conjunct2,
      THEN conjunct2, THEN conjunct2, THEN conjunct2, THEN conjunct2, rule_format, OF idle]
  from L have "stop ?R' = [Sleep 0.1]" by simp
  moreover from L have "filter is_cancel (stop example_robot @ stop ?R')
      = filter is_cancel (stop example_robot)" by simp
  ultimately show ?thesis using first by simp
qed

subsection \<open>Construction (claim C9)\<close>

text \<open>
  Claim C9. The constructor first probes both action servers, each with a timeout of 10,
  and submits no goal itself. If either probe fails it logs the error, signals shutdown
  and raises, so no session exists on which \<^verbatim>\<open>start\<close>, the only method that submits
  goals, could be called; a session is returned only when both probes succeeded.
\<close>

theorem init_fails_fast_when_unreachable:
  "take 2 (fst (init R)) = [WaitForServer Left 10, WaitForServer Right 10]
   \<and> (\<forall>e\<in>set (fst (init R)). \<not> is_send_goal e)
   \<and> (\<not> wait_for_server (left_client R) 10 \<or> \<not> wait_for_server (right_client R) 10 \<longrightarrow>
        init R = ([WaitForServer Left 10, WaitForServer Right 10,
                   LogErr server_msg, SignalShutdown server_msg], Inl NameError))
   \<and> (\<forall>s. snd (init R) = Inr s \<longrightarrow>
        wait_for_server (left_client R) 10 \<and> wait_for_server (right_client R) 10)"
  by (auto simp add: init_def Let_def)

theorem init_fails_fast_when_unreachable_witness:
  "\<not> wait_for_server (left_client
        (example_robot\<lparr>left_client := example_client\<lparr>wait_for_server := (\<lambda>t. False)\<rparr>\<rparr>)) 10
   \<and> init (example_robot\<lparr>left_client := example_client\<lparr>wait_for_server := (\<lambda>t. False)\<rparr>\<rparr>)
       = ([WaitForServer Left 10, WaitForServer Right 10,
           LogErr server_msg, SignalShutdown server_msg], Inl NameError)
   \<and> snd (init example_robot) = Inr new_trajectory
   \<and> wait_for_server (left_client example_robot) 10
   \<and> wait_for_server (right_client example_robot) 10"
proof -
  let ?R = "example_robot\<lparr>left_client := example_client\<lparr>wait_for_server := (\<lambda>t. False)\<rparr>\<rparr>"
  have down: "\<not> wait_for_server (left_client ?R) 10 \<or> \<not> wait_for_server (right_client ?R) 10"
    by simp
  have up: "snd (init example_robot) = Inr new_trajectory"
    by (simp add: init_def example_robot_def example_client_def)
  from init_fails_fast_when_unreachable [of ?R, THEN conjunct2, THEN conjunct2,
      THEN conjunct1, rule_format, OF down]
  have "init ?R = ([WaitForServer Left 10, WaitForServer Right 10,
      LogErr server_msg, SignalShutdown server_msg], Inl NameError)" .
  moreover from init_fails_fast_when_unreachable [of example_robot, THEN conjunct2,
      THEN conjunct2, THEN conjunct2, rule_format, OF up]
  have "wait_for_server (left_client example_robot) 10
      \<and> wait_for_server (right_client example_robot) 10" .
  ultimately show ?thesis using up by simp
qed

subsection \<open>Waiting for the result (claim C6)\<close>

text \<open>
  The timeout is \<open>slow_move_offset + last_time + (goal_time + 1.5)\<close>, where \<open>last_time\<close>
  is the time of the right arm's last point and \<open>goal_time\<close> defaults to 0. When both
  clients hold a result, \<^verbatim>\<open>wait\<close> returns true exactly if both waits finished and both
  error codes are 0, and warns otherwise.
\<close>

lemma wait_timeout_value:
  "points (r_goal s) \<noteq> [] \<Longrightarrow>
     wait_timeout s ps = Inr (slow_move_offset s + time_from_start (last (points (r_goal s)))
        + (get_param ps (param_ns @ ''goal_time'') 0 + 1.5))"
  by (simp add: wait_timeout_def py_index_minus_one py_bind_def)

lemma wait_with_results:
  assumes "wait_timeout s ps = Inr timeout"
    and "get_result (left_client R) = Some l" and "get_result (right_client R) = Some r"
  shows "snd (wait s ps R) = Inr (wait_for_result (left_client R) timeout
            \<and> wait_for_result (right_client R) timeout \<and> l = 0 \<and> r = 0)"
    and "fst (wait s ps R) = [WaitForResult Left timeout, WaitForResult Right timeout]
          @ (if wait_for_result (left_client R) timeout
                \<and> wait_for_result (right_client R) timeout \<and> l = 0 \<and> r = 0
             then [] else [LogWarn wait_msg])"
  using assms by (simp_all add: wait_def error_code_def Let_def)

lemma wait_without_result:
  assumes "wait_timeout s ps = Inr timeout"
    and "get_result (left_client R) = None \<or> get_result (right_client R) = None"
  shows "snd (wait s ps R) = Inl AttributeError"
  using assms by (auto simp add: wait_def error_code_def Let_def split: option.splits)

text \<open>
  Claim C6 says that a timeout on either arm yields false and a warning, never an
  exception. When the left arm has not finished within the timeout and its client holds
  no result, \<^verbatim>\<open>get_result()\<close> is \<^verbatim>\<open>None\<close> and line 280 raises \<^verbatim>\<open>AttributeError\<close>
  before the warning is reached.
\<close>

theorem wait_raises_on_timeout_without_result:
  "wait (new_trajectory\<lparr>r_goal := \<lparr>joint_names = [''right_s0''],
            points = [\<lparr>positions = [0.1], time_from_start = 0\<rparr>,
                      \<lparr>positions = [0.3], time_from_start = 2\<rparr>]\<rparr>\<rparr>)
        Map.empty
        (example_robot\<lparr>left_client :=
            example_client\<lparr>wait_for_result := (\<lambda>t. False), get_result := None\<rparr>\<rparr>)
     = ([WaitForResult Left 3.5, WaitForResult Right 3.5], Inl AttributeError)"
  by (simp add: wait_def wait_timeout_def py_index_def py_bind_def get_param_def
      new_trajectory_def example_robot_def example_client_def error_code_def)

subsection \<open>The start offset (claim C4)\<close>

lemma py_bind_Inr [simp]: "py_bind (Inr v) f = f v"
  by (simp add: py_bind_def)

lemma py_bind_Inl [simp]: "py_bind (Inl e) f = Inl e"
  by (simp add: py_bind_def)

lemma py_bind_eq_Inr:
  "(py_bind m f = Inr r) = (\<exists>v. m = Inr v \<and> f v = Inr r)"
  by (cases m) simp_all

lemma collect_joints_eq:
  "collect_joints E pos jnames (cmd, cur, vel) =
     (if \<forall>n\<in>set (filter is_arm jnames). pos n \<noteq> None
      then Inr (cmd @ map (\<lambda>n. the (pos n)) (filter is_arm jnames),
                cur @ map (cur_angle E) (filter is_arm jnames),
                vel @ map (default_velocity E) (filter is_arm jnames))
      else Inl KeyError)"
proof (induction jnames arbitrary: cmd cur vel)
  case Nil
  show ?case by simp
next
  case (Cons name names)
  show ?case
  proof (cases "is_arm name")
    case False
    then have "\<not> is_left name" "\<not> is_right name" by (simp_all add: is_arm_def)
    with False show ?thesis by (simp add: Cons.IH)
  next
    case True
    show ?thesis
    proof (cases "pos name")
      case None
      from True have "is_left name \<or> is_right name" by (simp add: is_arm_def)
      with None True show ?thesis by auto
    next
      case (Some c)
      show ?thesis
      proof (cases "is_left name")
        case L: True
        with Some True show ?thesis
          by (simp add: Cons.IH cur_angle_def default_velocity_def)
      next
        case NL: False
        with True have "is_right name" by (simp add: is_arm_def)
        with NL Some True show ?thesis
          by (simp add: Cons.IH cur_angle_def default_velocity_def)
      qed
    qed
  qed
qed

lemma abs_diffs_map:
  "map abs (map2 (-) (map f xs) (map g xs)) = map (\<lambda>n. \<bar>f n - g n :: real\<bar>) xs"
  by (induction xs) simp_all

lemma div_list_map:
  "div_list (map f xs) (map g xs) =
     (if \<forall>x\<in>set xs. g x \<noteq> 0 then Inr (map (\<lambda>x. f x / g x) xs) else Inl ZeroDivisionError)"
  by (induction xs) auto

lemma foldl_greater_Max:
  "foldl (\<lambda>m y. if y > m then y else m) (x :: real) xs = Max (set (x # xs))"
proof -
  have "(\<lambda>m y. if y > m then y else m) = (\<lambda>(m :: real) y. max y m)"
    by (auto simp add: fun_eq_iff max_def)
  then have "foldl (\<lambda>m y. if y > m then y else m) x xs = fold max xs x"
    by (simp add: foldl_conv_fold)
  also have "\<dots> = Max (set (x # xs))" by (rule Max.set_eq_fold [symmetric])
  finally show ?thesis .
qed

lemma py_max_eq: "py_max xs = (if xs = [] then Inl ValueError else Inr (Max (set xs)))"
proof (cases xs)
  case Nil
  then show ?thesis by simp
next
  case (Cons x ys)
  have "py_max (x # ys) = Inr (Max (set (x # ys)))"
    unfolding py_max.simps foldl_greater_Max ..
  with Cons show ?thesis by simp
qed

lemma find_start_offset_eq:
  "find_start_offset E jnames pos =
     (if \<exists>n\<in>set (filter is_arm jnames). pos n = None then Inl KeyError
      else if \<exists>n\<in>set (filter is_arm jnames). default_velocity E n = 0
        then Inl ZeroDivisionError
      else if set (filter is_arm jnames) = {} then Inl ValueError
      else Inr (spec_start_offset E jnames pos))"
proof (cases "\<forall>n\<in>set (filter is_arm jnames). pos n \<noteq> None")
  case False
  then show ?thesis
    unfolding find_start_offset_def collect_joints_eq [of E pos jnames "[]" "[]" "[]"]
    by auto
next
  case True
  let ?arm = "filter is_arm jnames"
  let ?f = "\<lambda>n. \<bar>the (pos n) - cur_angle E n\<bar>"
  have diffs: "map abs (map2 (-) (map (\<lambda>n. the (pos n)) ?arm) (map (cur_angle E) ?arm))
      = map ?f ?arm"
    by (rule abs_diffs_map)
  have fso: "find_start_offset E jnames pos
      = py_bind (div_list (map ?f ?arm) (map (default_velocity E) ?arm)) py_max"
  proof -
    from True have "collect_joints E pos jnames ([], [], []) =
        Inr (map (\<lambda>n. the (pos n)) ?arm, map (cur_angle E) ?arm,
             map (default_velocity E) ?arm)"
      unfolding collect_joints_eq [of E pos jnames "[]" "[]" "[]"] by simp
    then show ?thesis
      unfolding find_start_offset_def
      by (simp only: py_bind_Inr split_conv Let_def diffs)
  qed
  show ?thesis
  proof (cases "\<forall>n\<in>set ?arm. default_velocity E n \<noteq> 0")
    case False
    with True show ?thesis unfolding fso div_list_map by auto
  next
    case nz: True
    have "(\<lambda>n. ?f n / default_velocity E n) ` set ?arm = joint_ratio E pos ` set ?arm"
      using True by (intro image_cong) (auto simp add: joint_ratio_def)
    then have "Max (set (map (\<lambda>n. ?f n / default_velocity E n) ?arm))
        = spec_start_offset E jnames pos"
      by (simp add: spec_start_offset_def del: set_filter)
    with True nz show ?thesis
      unfolding fso div_list_map
      by (simp add: py_max_eq del: set_filter set_map)
  qed
qed

lemma find_start_offset_set:
  assumes "set jnames' = set jnames"
  shows "find_start_offset E jnames' pos = find_start_offset E jnames pos"
proof -
  from assms have "set (filter is_arm jnames') = set (filter is_arm jnames)" by simp
  then show ?thesis
    unfolding find_start_offset_eq spec_start_offset_def by (simp del: set_filter)
qed


text \<open>
  Claim C4. Whenever the header names at least one arm joint, the first row commands
  every arm joint and no arm joint has velocity 0 (the cases in which the code raises
  instead of returning an offset), \<^verbatim>\<open>find_start_offset\<close> returns the greatest ratio
  \<open>|commanded - current| / velocity\<close> over the arm joints; it returns the same for every
  permutation of the joint names, and 0 when every arm joint is commanded to its
  current angle. The velocity of a joint with no configured parameter is 0.25.
\<close>

theorem find_start_offset_is_max_ratio:
  assumes "\<exists>n\<in>set jnames. is_arm n"
    and "\<forall>n\<in>set jnames. is_arm n \<longrightarrow> pos n \<noteq> None"
    and "\<forall>n\<in>set jnames. is_arm n \<longrightarrow> default_velocity E n \<noteq> 0"
  shows "find_start_offset E jnames pos = Inr (spec_start_offset E jnames pos)
       \<and> (\<forall>jnames'. mset jnames' = mset jnames \<longrightarrow>
            find_start_offset E jnames' pos = Inr (spec_start_offset E jnames pos))
       \<and> ((\<forall>n\<in>set jnames. is_arm n \<longrightarrow> pos n = Some (cur_angle E n)) \<longrightarrow>
            find_start_offset E jnames pos = Inr 0)
       \<and> (\<forall>n. params E (vel_param n) = None \<longrightarrow> default_velocity E n = 0.25)"
proof -
  from assms have val: "find_start_offset E jnames pos = Inr (spec_start_offset E jnames pos)"
    unfolding find_start_offset_eq by auto
  have perm: "find_start_offset E jnames' pos = Inr (spec_start_offset E jnames pos)"
    if "mset jnames' = mset jnames" for jnames'
  proof -
    from that have "set jnames' = set jnames" by (rule mset_eq_setD)
    then have "find_start_offset E jnames' pos = find_start_offset E jnames pos"
      by (rule find_start_offset_set)
    with val show ?thesis by simp
  qed
  have zero: "find_start_offset E jnames pos = Inr 0"
    if eq: "\<forall>n\<in>set jnames. is_arm n \<longrightarrow> pos n = Some (cur_angle E n)"
  proof -
    let ?S = "joint_ratio E pos ` set (filter is_arm jnames)"
    from eq have all0: "\<forall>n\<in>set (filter is_arm jnames). joint_ratio E pos n = 0"
      by (simp add: joint_ratio_def)
    from assms(1) have "finite ?S" "?S \<noteq> {}" by auto
    then have "Max ?S \<in> ?S" by (rule Max_in)
    then obtain n where "n \<in> set (filter is_arm jnames)" "Max ?S = joint_ratio E pos n"
      by (auto simp del: set_filter)
    with all0 have "spec_start_offset E jnames pos = 0"
      by (simp add: spec_start_offset_def del: set_filter)
    with val show ?thesis by simp
  qed
  have dflt: "default_velocity E n = 0.25" if "params E (vel_param n) = None" for n
    using that by (simp add: default_velocity_def get_param_def)
  from val perm zero dflt show ?thesis by (intro conjI allI impI) simp_all
qed


theorem find_start_offset_is_max_ratio_witness:
  "find_start_offset example_env [''time'', ''left_s0'', ''right_s0'', ''left_gripper'']
      [''left_s0'' \<mapsto> 0.6, ''right_s0'' \<mapsto> 0.1, ''left_gripper'' \<mapsto> 50] = Inr 2
   \<and> find_start_offset example_env [''left_gripper'', ''right_s0'', ''left_s0'', ''time'']
      [''left_s0'' \<mapsto> 0.6, ''right_s0'' \<mapsto> 0.1, ''left_gripper'' \<mapsto> 50] = Inr 2
   \<and> find_start_offset example_env [''time'', ''left_s0'', ''right_s0'', ''left_gripper'']
      [''left_s0'' \<mapsto> 0.1, ''right_s0'' \<mapsto> 0.2] = Inr 0
   \<and> default_velocity example_env ''left_s0'' = 0.25"
proof -
  let ?jn = "[''time'', ''left_s0'', ''right_s0'', ''left_gripper'']"
  let ?pos = "[''left_s0'' \<mapsto> 0.6 :: real, ''right_s0'' \<mapsto> 0.1, ''left_gripper'' \<mapsto> 50]"
  let ?cur = "[''left_s0'' \<mapsto> 0.1 :: real, ''right_s0'' \<mapsto> 0.2]"
  have arm: "filter is_arm ?jn = [''left_s0'', ''right_s0'']"
    by (simp add: is_arm_def is_left_def is_right_def)
  have vel: "default_velocity example_env ''left_s0'' = 0.25"
      "default_velocity example_env ''right_s0'' = 0.5"
    by (simp_all add: default_velocity_def get_param_def example_env_def vel_param_def
        param_ns_def)
  have cur: "cur_angle example_env ''left_s0'' = 0.1" "cur_angle example_env ''right_s0'' = 0.2"
    by (simp_all add: cur_angle_def example_env_def is_left_def)
  have h1: "\<exists>n\<in>set ?jn. is_arm n" by (simp add: is_arm_def is_left_def is_right_def)
  have h2: "\<forall>n\<in>set ?jn. is_arm n \<longrightarrow> ?pos n \<noteq> None"
    by (simp add: is_arm_def is_left_def is_right_def del: not_None_eq)
  have h2': "\<forall>n\<in>set ?jn. is_arm n \<longrightarrow> ?cur n \<noteq> None"
    by (simp add: is_arm_def is_left_def is_right_def del: not_None_eq)
  have h3: "\<forall>n\<in>set ?jn. is_arm n \<longrightarrow> default_velocity example_env n \<noteq> 0"
    using vel by (simp add: is_arm_def is_left_def is_right_def)
  have spec: "spec_start_offset example_env ?jn ?pos = 2"
    unfolding spec_start_offset_def arm by (simp add: joint_ratio_def vel cur)
  have same: "\<forall>n\<in>set ?jn. is_arm n \<longrightarrow> ?cur n = Some (cur_angle example_env n)"
    using cur by (simp add: is_arm_def is_left_def is_right_def)
  have perm: "mset [''left_gripper'', ''right_s0'', ''left_s0'', ''time''] = mset ?jn"
    by simp
  note L = find_start_offset_is_max_ratio [OF h1 h2 h3]
  note L' = find_start_offset_is_max_ratio [OF h1 h2' h3]
  have r1: "find_start_offset example_env ?jn ?pos = Inr 2"
    using L [THEN conjunct1] unfolding spec .
  have r2: "find_start_offset example_env [''left_gripper'', ''right_s0'', ''left_s0'', ''time'']
      ?pos = Inr 2"
    using L [THEN conjunct2, THEN conjunct1, rule_format, OF perm] unfolding spec .
  have r3: "find_start_offset example_env ?jn ?cur = Inr 0"
    using L' [THEN conjunct2, THEN conjunct2, THEN conjunct1, THEN mp, OF same] .
  show ?thesis by (intro conjI r1 r2 r3 vel(1))
qed

subsection \<open>Parsing a recording\<close>

lemma split_comma_not_Nil [simp]: "split_comma s \<noteq> []"
  by (induction s) (auto split: list.splits)

lemma left_not_right: "is_left name \<Longrightarrow> \<not> is_right name"
proof
  assume "is_left name" and "is_right name"
  then have a: "''left'' = take (length name - 3) name"
    and b: "''right'' = take (length name - 3) name"
    by (simp_all only: is_left_def is_right_def)
  from a b [symmetric] have "''left'' = ''right''" by (rule trans)
  then show False by simp
qed

lemma row_value0_clean_line:
  "row_value0 (snd (clean_line E line jnames)) =
     (case row_time E line of None \<Rightarrow> Inl TypeError | Some t \<Rightarrow> Inr t)"
  by (cases "split_comma (rstrip line)")
    (simp_all add: row_value0_def clean_line_def row_time_def Let_def split: option.splits)

lemma getitems_eq:
  "getitems cmd names =
     (if set names \<subseteq> dom cmd then Inr (map (\<lambda>j. the (cmd j)) names)
      else Inl KeyError)"
proof (induction names)
  case Nil
  show ?case by simp
next
  case (Cons j js)
  show ?case
  proof (cases "cmd j")
    case None
    then have "j \<notin> dom cmd" by (simp add: domIff)
    with None show ?thesis by simp
  next
    case (Some v)
    then have "j \<in> dom cmd" by (simp add: domIff)
    with Some show ?thesis by (simp add: Cons.IH)
  qed
qed

lemma add_joint_names_l_goal:
  "l_goal (add_joint_names jnames s) =
     (l_goal s)\<lparr>joint_names := joint_names (l_goal s) @ filter is_left jnames\<rparr>"
  by (induction jnames arbitrary: s) simp_all

lemma add_joint_names_r_goal:
  "r_goal (add_joint_names jnames s) =
     (r_goal s)\<lparr>joint_names := joint_names (r_goal s) @ filter is_right jnames\<rparr>"
  by (induction jnames arbitrary: s) (simp_all add: left_not_right)

lemma add_joint_names_other:
  "l_grip (add_joint_names jnames s) = l_grip s"
  "r_grip (add_joint_names jnames s) = r_grip s"
  "arm_trajectory_started (add_joint_names jnames s) = arm_trajectory_started s"
  "slow_move_offset (add_joint_names jnames s) = slow_move_offset s"
  "trajectory_start_offset (add_joint_names jnames s) = trajectory_start_offset s"
  "trajectory_actual_offset (add_joint_names jnames s) = trajectory_actual_offset s"
  by (induction jnames arbitrary: s) simp_all


lemma add_point_sides [simp]:
  "add_point s ps ''left'' t
     = s\<lparr>l_goal := append_point \<lparr>positions = ps, time_from_start = t\<rparr> (l_goal s)\<rparr>"
  "add_point s ps ''right'' t
     = s\<lparr>r_goal := append_point \<lparr>positions = ps, time_from_start = t\<rparr> (r_goal s)\<rparr>"
  "add_point s ps ''left_gripper'' t
     = s\<lparr>l_grip := append_point \<lparr>positions = ps, time_from_start = t\<rparr> (l_grip s)\<rparr>"
  "add_point s ps ''right_gripper'' t
     = s\<lparr>r_grip := append_point \<lparr>positions = ps, time_from_start = t\<rparr> (r_grip s)\<rparr>"
  by (simp_all add: add_point_def)

lemma append_point_simps [simp]:
  "joint_names (append_point p g) = joint_names g"
  "points (append_point p g) = points g @ [p]"
  by (simp_all add: append_point_def)

lemma add_row_complete:
  assumes "row_value0 values = Inr v0" and "set (required_keys s) \<subseteq> dom cmd"
  shows "add_row cmd values start_offset s = Inr (with_row cmd (v0 + start_offset) s)"
  using assms
  by (simp add: add_row_def getitems_eq required_keys_def with_row_def row_point_def)

lemma add_row_Inr:
  assumes "add_row cmd values start_offset s = Inr s'"
  shows "\<exists>v0. row_value0 values = Inr v0 \<and> set (required_keys s) \<subseteq> dom cmd
           \<and> s' = with_row cmd (v0 + start_offset) s"
proof -
  from assms have l: "set (joint_names (l_goal s)) \<subseteq> dom cmd"
    by (cases "set (joint_names (l_goal s)) \<subseteq> dom cmd")
      (simp_all add: add_row_def getitems_eq)
  from assms l obtain v0 where v0: "row_value0 values = Inr v0"
    by (cases "row_value0 values") (simp_all add: add_row_def getitems_eq)
  from assms l v0 have r: "set (joint_names (r_goal s)) \<subseteq> dom cmd"
    by (cases "set (joint_names (r_goal s)) \<subseteq> dom cmd")
      (simp_all add: add_row_def getitems_eq)
  from assms l v0 r have lg: "''left_gripper'' \<in> dom cmd"
    by (cases "''left_gripper'' \<in> dom cmd") (simp_all add: add_row_def getitems_eq)
  from assms l v0 r lg have rg: "''right_gripper'' \<in> dom cmd"
    by (cases "''right_gripper'' \<in> dom cmd") (simp_all add: add_row_def getitems_eq)
  from l r lg rg have all: "set (required_keys s) \<subseteq> dom cmd"
    by (simp add: required_keys_def)
  from add_row_complete [OF v0 all, of start_offset] assms
  have "s' = with_row cmd (v0 + start_offset) s" by simp
  with v0 all show ?thesis by blast
qed


lemma with_row_fields [simp]:
  "joint_names (l_goal (with_row cmd t s)) = joint_names (l_goal s)"
  "joint_names (r_goal (with_row cmd t s)) = joint_names (r_goal s)"
  "joint_names (l_grip (with_row cmd t s)) = joint_names (l_grip s)"
  "joint_names (r_grip (with_row cmd t s)) = joint_names (r_grip s)"
  "points (l_goal (with_row cmd t s))
     = points (l_goal s) @ [row_point cmd t (joint_names (l_goal s))]"
  "points (r_goal (with_row cmd t s))
     = points (r_goal s) @ [row_point cmd t (joint_names (r_goal s))]"
  "points (l_grip (with_row cmd t s)) = points (l_grip s) @ [row_point cmd t [''left_gripper'']]"
  "points (r_grip (with_row cmd t s)) = points (r_grip s) @ [row_point cmd t [''right_gripper'']]"
  "arm_trajectory_started (with_row cmd t s) = arm_trajectory_started s"
  "slow_move_offset (with_row cmd t s) = slow_move_offset s"
  "trajectory_start_offset (with_row cmd t s) = trajectory_start_offset s"
  "trajectory_actual_offset (with_row cmd t s) = trajectory_actual_offset s"
  by (simp_all add: with_row_def)

lemma required_keys_with_row [simp]: "required_keys (with_row cmd t s) = required_keys s"
  by (simp add: required_keys_def)

lemma row_ok_with_row [simp]: "row_ok E jnames (with_row cmd t s) = row_ok E jnames s"
  by (rule ext) (simp add: row_ok_def)

lemma add_rows_simps [simp]:
  "add_rows E jnames so [] s = s"
  "add_rows E jnames so (line # rows) s =
     add_rows E jnames so rows
       (with_row (row_cmd E jnames line) (the (row_time E line) + so) s)"
  by (simp_all add: add_rows_def)

lemma add_rows_fields:
  "joint_names (l_goal (add_rows E jnames so rows s)) = joint_names (l_goal s)"
  "joint_names (r_goal (add_rows E jnames so rows s)) = joint_names (r_goal s)"
  "joint_names (l_grip (add_rows E jnames so rows s)) = joint_names (l_grip s)"
  "joint_names (r_grip (add_rows E jnames so rows s)) = joint_names (r_grip s)"
  "arm_trajectory_started (add_rows E jnames so rows s) = arm_trajectory_started s"
  "slow_move_offset (add_rows E jnames so rows s) = slow_move_offset s"
  "trajectory_start_offset (add_rows E jnames so rows s) = trajectory_start_offset s"
  "trajectory_actual_offset (add_rows E jnames so rows s) = trajectory_actual_offset s"
  by (induction rows arbitrary: s) simp_all

lemma add_rows_points:
  "points (l_goal (add_rows E jnames so rows s)) = points (l_goal s)
     @ map (\<lambda>line. row_point (row_cmd E jnames line) (the (row_time E line) + so)
                     (joint_names (l_goal s))) rows"
  "points (r_goal (add_rows E jnames so rows s)) = points (r_goal s)
     @ map (\<lambda>line. row_point (row_cmd E jnames line) (the (row_time E line) + so)
                     (joint_names (r_goal s))) rows"
  "points (l_grip (add_rows E jnames so rows s)) = points (l_grip s)
     @ map (\<lambda>line. row_point (row_cmd E jnames line) (the (row_time E line) + so)
                     [''left_gripper'']) rows"
  "points (r_grip (add_rows E jnames so rows s)) = points (r_grip s)
     @ map (\<lambda>line. row_point (row_cmd E jnames line) (the (row_time E line) + so)
                     [''right_gripper'']) rows"
  by (induction rows arbitrary: s) simp_all

lemma parse_rows_step:
  "parse_rows E jnames (Suc k) so (line # rest) s =
     py_bind (add_row (row_cmd E jnames line) (snd (clean_line E line jnames)) so s)
       (\<lambda>s2. parse_rows E jnames (Suc (Suc k)) so rest s2)"
  by (simp add: row_cmd_def split: prod.splits)

lemma parse_rows_first:
  "parse_rows E jnames 0 so0 (line # rest) s =
     py_bind (first_row E jnames (row_cmd E jnames line) (snd (clean_line E line jnames)) s)
       (\<lambda>(s1, so).
          py_bind (add_row (row_cmd E jnames line) (snd (clean_line E line jnames)) so s1)
            (\<lambda>s2. parse_rows E jnames (Suc 0) so rest s2))"
  by (simp add: row_cmd_def split: prod.splits)

lemma row_value0_Inr:
  "(row_value0 (snd (clean_line E line jnames)) = Inr t) = (row_time E line = Some t)"
  by (simp add: row_value0_clean_line split: option.splits)

lemma add_row_line_Inr:
  "(add_row (row_cmd E jnames line) (snd (clean_line E line jnames)) so s = Inr s') =
     (row_ok E jnames s line
      \<and> s' = with_row (row_cmd E jnames line) (the (row_time E line) + so) s)"
proof
  assume "add_row (row_cmd E jnames line) (snd (clean_line E line jnames)) so s = Inr s'"
  from add_row_Inr [OF this] show "row_ok E jnames s line
      \<and> s' = with_row (row_cmd E jnames line) (the (row_time E line) + so) s"
    by (auto simp add: row_ok_def row_value0_Inr)
next
  assume h: "row_ok E jnames s line
      \<and> s' = with_row (row_cmd E jnames line) (the (row_time E line) + so) s"
  then obtain t where t: "row_time E line = Some t" by (auto simp add: row_ok_def)
  then have "row_value0 (snd (clean_line E line jnames)) = Inr t" by (simp add: row_value0_Inr)
  from add_row_complete [OF this, of s "row_cmd E jnames line" so] h t
  show "add_row (row_cmd E jnames line) (snd (clean_line E line jnames)) so s = Inr s'"
    by (simp add: row_ok_def)
qed

lemma parse_rows_Suc_Inr:
  "(parse_rows E jnames (Suc k) so rows s = Inr s') =
     (list_all (row_ok E jnames s) rows \<and> s' = add_rows E jnames so rows s)"
proof (induction rows arbitrary: s k)
  case Nil
  show ?case by auto
next
  case (Cons line rest)
  show ?case
    unfolding parse_rows_step py_bind_eq_Inr add_row_line_Inr
    by (auto simp add: Cons.IH)
qed


lemma with_start_fields [simp]:
  "joint_names (l_goal (with_start E so v0 s)) = joint_names (l_goal s)"
  "joint_names (r_goal (with_start E so v0 s)) = joint_names (r_goal s)"
  "points (l_goal (with_start E so v0 s)) = points (l_goal s)
     @ [\<lparr>positions = map (l_arm_joint_angle E) (joint_names (l_goal s)), time_from_start = 0\<rparr>]"
  "points (r_goal (with_start E so v0 s)) = points (r_goal s)
     @ [\<lparr>positions = map (r_arm_joint_angle E) (joint_names (r_goal s)), time_from_start = 0\<rparr>]"
  "l_grip (with_start E so v0 s) = l_grip s"
  "r_grip (with_start E so v0 s) = r_grip s"
  "arm_trajectory_started (with_start E so v0 s) = arm_trajectory_started s"
  "slow_move_offset (with_start E so v0 s) = so"
  "trajectory_start_offset (with_start E so v0 s) = so + v0"
  "trajectory_actual_offset (with_start E so v0 s) = trajectory_actual_offset s"
  by (simp_all add: with_start_def)

lemma row_ok_with_start [simp]: "row_ok E jnames (with_start E so v0 s) = row_ok E jnames s"
  by (rule ext) (simp add: row_ok_def required_keys_def)

lemma first_row_Inr:
  "(first_row E jnames cmd values s = Inr (s1, so)) =
     (find_start_offset E jnames cmd = Inr so
      \<and> (\<exists>v0. row_value0 values = Inr v0 \<and> s1 = with_start E so v0 s))"
  unfolding first_row_def Let_def py_bind_eq_Inr
  by (auto simp add: with_start_def)

lemma parse_rows_first_Inr:
  "(parse_rows E jnames 0 so0 (line # rest) s = Inr s') =
     (\<exists>so v0. find_start_offset E jnames (row_cmd E jnames line) = Inr so
        \<and> row_time E line = Some v0
        \<and> list_all (row_ok E jnames s) (line # rest)
        \<and> s' = add_rows E jnames so (line # rest) (with_start E so v0 s))"
  by (auto simp add: parse_rows_first py_bind_eq_Inr first_row_Inr add_row_line_Inr
      parse_rows_Suc_Inr row_value0_Inr simp del: parse_rows.simps)

lemma parse_file_Inr:
  "(parse_file E (header # line # rest) s0 = Inr s) =
     (\<exists>so v0. find_start_offset E (split_comma (rstrip header))
                  (row_cmd E (split_comma (rstrip header)) line) = Inr so
        \<and> row_time E line = Some v0
        \<and> list_all (row_ok E (split_comma (rstrip header))
                      (add_joint_names (split_comma (rstrip header)) s0)) (line # rest)
        \<and> s = add_rows E (split_comma (rstrip header)) so (line # rest)
                (with_start E so v0 (add_joint_names (split_comma (rstrip header)) s0)))"
  unfolding parse_file_def list.case Let_def parse_rows_first_Inr by blast

lemma parse_file_header_only:
  "parse_file E [header] s0 = Inr (add_joint_names (split_comma (rstrip header)) s0)"
  by (simp add: parse_file_def)


lemma row_cmd_pairs:
  "row_cmd E jnames line =
     dict (List.map_filter (\<lambda>x. case snd x of None \<Rightarrow> None | Some v \<Rightarrow> Some (fst x, v))
       (zip (tl jnames) (map (float_of E) (tl (split_comma (rstrip line))))))"
  by (simp add: row_cmd_def clean_line_def Let_def map_tl)

lemma set_map_filter_conv:
  "set (List.map_filter f xs) = {y. \<exists>x\<in>set xs. f x = Some y}"
  by (induction xs) (auto simp add: map_filter_simps split: option.splits)

lemma row_cmd_Some_cell:
  assumes "row_cmd E jnames line name = Some v"
  shows "\<exists>i. i < length (tl jnames) \<and> i < length (tl (split_comma (rstrip line)))
           \<and> tl jnames ! i = name \<and> float_of E (tl (split_comma (rstrip line)) ! i) = Some v"
proof -
  from assms have "(name, v) \<in> set (List.map_filter
      (\<lambda>x. case snd x of None \<Rightarrow> None | Some v \<Rightarrow> Some (fst x, v))
      (zip (tl jnames) (map (float_of E) (tl (split_comma (rstrip line))))))"
    unfolding row_cmd_pairs dict_def by (auto dest: map_of_SomeD)
  then obtain n c where "(n, c) \<in> set (zip (tl jnames)
      (map (float_of E) (tl (split_comma (rstrip line)))))" "n = name" "c = Some v"
    by (auto simp add: set_map_filter_conv split: option.splits)
  then show ?thesis by (auto simp add: set_zip)
qed

lemma row_cmd_None_cell:
  assumes "row_cmd E jnames line name = None"
    and "i < length (tl jnames)" and "i < length (tl (split_comma (rstrip line)))"
    and "tl jnames ! i = name"
  shows "float_of E (tl (split_comma (rstrip line)) ! i) = None"
proof (rule ccontr)
  assume "float_of E (tl (split_comma (rstrip line)) ! i) \<noteq> None"
  then obtain v where v: "float_of E (tl (split_comma (rstrip line)) ! i) = Some v" by auto
  from assms(2,3,4) have "(name, Some v) \<in> set (zip (tl jnames)
      (map (float_of E) (tl (split_comma (rstrip line)))))"
    unfolding set_zip using v by auto
  then have "(name, v) \<in> set (List.map_filter
      (\<lambda>x. case snd x of None \<Rightarrow> None | Some v \<Rightarrow> Some (fst x, v))
      (zip (tl jnames) (map (float_of E) (tl (split_comma (rstrip line))))))"
    unfolding set_map_filter_conv by force
  then have "name \<in> fst ` set (rev (List.map_filter
      (\<lambda>x. case snd x of None \<Rightarrow> None | Some v \<Rightarrow> Some (fst x, v))
      (zip (tl jnames) (map (float_of E) (tl (split_comma (rstrip line)))))))"
    by force
  with assms(1) show False
    unfolding row_cmd_pairs dict_def map_of_eq_None_iff by simp
qed

lemma row_cmd_distinct:
  assumes "distinct (tl jnames)" and "0 < k" and "k < length jnames"
    and "k < length (split_comma (rstrip line))"
  shows "row_cmd E jnames line (jnames ! k) = float_of E (split_comma (rstrip line) ! k)"
proof -
  let ?cells = "split_comma (rstrip line)"
  from assms obtain i where k: "k = Suc i" by (cases k) simp_all
  with assms have i: "i < length (tl jnames)" "i < length (tl ?cells)" by simp_all
  then have nth: "tl jnames ! i = jnames ! k" "tl ?cells ! i = ?cells ! k"
    by (simp_all add: nth_tl k)
  show ?thesis
  proof (cases "row_cmd E jnames line (jnames ! k)")
    case None
    from row_cmd_None_cell [OF None i nth(1)] nth None show ?thesis by simp
  next
    case (Some v)
    from row_cmd_Some_cell [OF Some] obtain j where j: "j < length (tl jnames)"
        "j < length (tl ?cells)" "tl jnames ! j = jnames ! k"
        "float_of E (tl ?cells ! j) = Some v"
      by blast
    from nth_eq_iff_index_eq [OF assms(1) j(1) i(1)] j(3) nth(1) have "j = i" by simp
    with j(4) nth(2) Some show ?thesis by simp
  qed
qed


lemmas example_defs =
  example_env_def example_file_def example_header_def new_trajectory_def empty_goal_def
  parse_file_def rstrip_def is_space_def is_left_def is_right_def clean_line_def
  decimal_float_def unsigned_decimal_def digit_of_def map_filter_simps dict_def
  first_row_def add_row_def find_start_offset_def get_param_def vel_param_def param_ns_def
  row_value0_def

lemma example_parse:
  "parse_file example_env example_file new_trajectory =
     Inr \<lparr>l_goal = \<lparr>joint_names = [''left_s0''],
              points = [\<lparr>positions = [1/10], time_from_start = 0\<rparr>,
                        \<lparr>positions = [6/10], time_from_start = 3\<rparr>,
                        \<lparr>positions = [3/10], time_from_start = 5\<rparr>]\<rparr>,
          r_goal = \<lparr>joint_names = [''right_s0''],
              points = [\<lparr>positions = [2/10], time_from_start = 0\<rparr>,
                        \<lparr>positions = [1/10], time_from_start = 3\<rparr>,
                        \<lparr>positions = [3/10], time_from_start = 5\<rparr>]\<rparr>,
          l_grip = \<lparr>joint_names = [],
              points = [\<lparr>positions = [50], time_from_start = 3\<rparr>,
                        \<lparr>positions = [80], time_from_start = 5\<rparr>]\<rparr>,
          r_grip = \<lparr>joint_names = [],
              points = [\<lparr>positions = [50], time_from_start = 3\<rparr>,
                        \<lparr>positions = [80], time_from_start = 5\<rparr>]\<rparr>,
          arm_trajectory_started = False, slow_move_offset = 2,
          trajectory_start_offset = 3, trajectory_actual_offset = 0\<rparr>"
  by (simp add: example_defs)


lemma required_keys_new:
  "required_keys (add_joint_names jnames new_trajectory)
     = filter is_left jnames @ filter is_right jnames @ [''left_gripper'', ''right_gripper'']"
  by (simp add: required_keys_def add_joint_names_l_goal add_joint_names_r_goal
      new_trajectory_def empty_goal_def)

lemma parse_file_new:
  assumes "parse_file E (header # line # rest) new_trajectory = Inr s"
  defines "jnames \<equiv> split_comma (rstrip header)"
  defines "mk \<equiv> \<lambda>names line. row_point (row_cmd E jnames line)
                    (the (row_time E line) + slow_move_offset s) names"
  shows "find_start_offset E jnames (row_cmd E jnames line) = Inr (slow_move_offset s)"
    and "\<exists>v0. row_time E line = Some v0 \<and> trajectory_start_offset s = slow_move_offset s + v0"
    and "joint_names (l_goal s) = filter is_left jnames"
    and "joint_names (r_goal s) = filter is_right jnames"
    and "points (l_goal s) =
           \<lparr>positions = map (l_arm_joint_angle E) (filter is_left jnames), time_from_start = 0\<rparr>
           # map (mk (filter is_left jnames)) (line # rest)"
    and "points (r_goal s) =
           \<lparr>positions = map (r_arm_joint_angle E) (filter is_right jnames), time_from_start = 0\<rparr>
           # map (mk (filter is_right jnames)) (line # rest)"
    and "points (l_grip s) = map (mk [''left_gripper'']) (line # rest)"
    and "points (r_grip s) = map (mk [''right_gripper'']) (line # rest)"
    and "list_all (row_ok E jnames (add_joint_names jnames new_trajectory)) (line # rest)"
    and "\<not> arm_trajectory_started s" and "trajectory_actual_offset s = 0"
proof -
  let ?s1 = "add_joint_names jnames new_trajectory"
  from assms(1) obtain so v0 where
    so: "find_start_offset E jnames (row_cmd E jnames line) = Inr so" and
    v0: "row_time E line = Some v0" and
    ok: "list_all (row_ok E jnames ?s1) (line # rest)" and
    s: "s = add_rows E jnames so (line # rest) (with_start E so v0 ?s1)"
    unfolding parse_file_Inr jnames_def by blast
  have slow: "slow_move_offset s = so" unfolding s by (simp add: add_rows_fields)
  have n1: "joint_names (l_goal ?s1) = filter is_left jnames"
      "joint_names (r_goal ?s1) = filter is_right jnames"
      "points (l_goal ?s1) = []" "points (r_goal ?s1) = []"
      "points (l_grip ?s1) = []" "points (r_grip ?s1) = []"
    by (simp_all add: add_joint_names_l_goal add_joint_names_r_goal add_joint_names_other
        new_trajectory_def empty_goal_def)
  show "find_start_offset E jnames (row_cmd E jnames line) = Inr (slow_move_offset s)"
    using so slow by simp
  show "\<exists>v0. row_time E line = Some v0 \<and> trajectory_start_offset s = slow_move_offset s + v0"
    using v0 unfolding s by (simp add: add_rows_fields)
  show "joint_names (l_goal s) = filter is_left jnames"
    unfolding s by (simp add: add_rows_fields n1)
  show "joint_names (r_goal s) = filter is_right jnames"
    unfolding s by (simp add: add_rows_fields n1)
  show "points (l_goal s) =
      \<lparr>positions = map (l_arm_joint_angle E) (filter is_left jnames), time_from_start = 0\<rparr>
      # map (mk (filter is_left jnames)) (line # rest)"
    unfolding mk_def slow unfolding s add_rows_points by (simp add: n1)
  show "points (r_goal s) =
      \<lparr>positions = map (r_arm_joint_angle E) (filter is_right jnames), time_from_start = 0\<rparr>
      # map (mk (filter is_right jnames)) (line # rest)"
    unfolding mk_def slow unfolding s add_rows_points by (simp add: n1)
  show "points (l_grip s) = map (mk [''left_gripper'']) (line # rest)"
    unfolding mk_def slow unfolding s add_rows_points by (simp add: n1)
  show "points (r_grip s) = map (mk [''right_gripper'']) (line # rest)"
    unfolding mk_def slow unfolding s add_rows_points by (simp add: n1)
  show "list_all (row_ok E jnames ?s1) (line # rest)" by (rule ok)
  show "\<not> arm_trajectory_started s"
    unfolding s by (simp add: add_rows_fields add_joint_names_other new_trajectory_def)
  show "trajectory_actual_offset s = 0"
    unfolding s by (simp add: add_rows_fields add_joint_names_other new_trajectory_def)
qed

lemma row_times_Some:
  assumes "list_all (row_ok E jnames s1) rows"
  shows "map (row_time E) rows = map Some (map (\<lambda>line. the (row_time E line)) rows)"
  using assms by (induction rows) (auto simp add: row_ok_def)

lemma row_point_time [simp]: "time_from_start (row_point cmd t names) = t"
  by (simp add: row_point_def)

lemma row_point_positions [simp]:
  "positions (row_point cmd t names) = map (\<lambda>j. the (cmd j)) names"
  by (simp add: row_point_def)

lemma sorted_wrt_shift:
  "sorted_wrt (<) (map (\<lambda>t. t + (c :: real)) ts) = sorted_wrt (<) ts"
  by (simp add: sorted_wrt_map)

lemma example_session_parsed:
  "parse_file example_env example_file new_trajectory = Inr example_session"
  unfolding example_session_def by (rule example_parse)

lemma example_row_times:
  "map (row_time example_env) (tl example_file) = map Some [1, 3]"
  by (simp add: row_time_def example_defs)

lemma example_two_lines: "tl example_file \<noteq> []"
  by (simp add: example_file_def)

lemma two_lines: "tl lines \<noteq> [] \<Longrightarrow> \<exists>header line rest. lines = header # line # rest"
  by (cases lines; cases "tl lines") auto

subsection \<open>The arm trajectories (claim C3)\<close>

lemma sorted_wrt_zero_Cons:
  "sorted_wrt (<) xs \<Longrightarrow> xs \<noteq> [] \<Longrightarrow> sorted_wrt (<) ((0 :: real) # xs) = (0 < hd xs)"
  by (cases xs) auto

lemma scenario_parse:
  "parse_file scenario_env scenario_file new_trajectory = Inr scenario_session"
  by (simp add: scenario_env_def scenario_file_def scenario_session_def example_defs)

text \<open>
  Claim C3, as the code has it. Let \<^verbatim>\<open>parse_file\<close> return a session for a file with at
  least one data row, parsed into a new session. Every data row then has a recorded
  time; call these times \<open>ts\<close>. Each arm's trajectory starts with a point at elapsed
  time 0 whose positions are the current angles of that arm's joints (whatever the first
  row holds), and the following points have the elapsed times \<open>t + slow_move_offset\<close>
  for the recorded times \<open>t\<close> in file order. If the recorded times are strictly
  increasing, so are the elapsed times of the points that follow the initial one; the
  whole sequence, initial point included, is strictly increasing exactly when the first
  recorded time plus \<open>slow_move_offset\<close> is positive.
\<close>

theorem parse_file_arm_trajectories:
  assumes "parse_file E lines new_trajectory = Inr s" and "tl lines \<noteq> []"
  shows "\<exists>ts. map (row_time E) (tl lines) = map Some ts
      \<and> map time_from_start (points (l_goal s)) = 0 # map (\<lambda>t. t + slow_move_offset s) ts
      \<and> map time_from_start (points (r_goal s)) = 0 # map (\<lambda>t. t + slow_move_offset s) ts
      \<and> positions (hd (points (l_goal s)))
          = map (l_arm_joint_angle E) (joint_names (l_goal s))
      \<and> positions (hd (points (r_goal s)))
          = map (r_arm_joint_angle E) (joint_names (r_goal s))
      \<and> joint_names (l_goal s) = filter is_left (split_comma (rstrip (hd lines)))
      \<and> joint_names (r_goal s) = filter is_right (split_comma (rstrip (hd lines)))
      \<and> (sorted_wrt (<) ts \<longrightarrow>
            sorted_wrt (<) (tl (map time_from_start (points (l_goal s))))
          \<and> sorted_wrt (<) (tl (map time_from_start (points (r_goal s))))
          \<and> sorted_wrt (<) (map time_from_start (points (l_goal s)))
              = (0 < hd ts + slow_move_offset s)
          \<and> sorted_wrt (<) (map time_from_start (points (r_goal s)))
              = (0 < hd ts + slow_move_offset s))"
proof -
  from assms(2) obtain header line rest where lines: "lines = header # line # rest"
    using two_lines by blast
  let ?jn = "split_comma (rstrip header)"
  let ?ts = "map (\<lambda>line. the (row_time E line)) (line # rest)"
  note P = parse_file_new [OF assms(1) [unfolded lines]]
  have t: "map (row_time E) (tl lines) = map Some ?ts"
    unfolding lines using row_times_Some [OF P(9)] by simp
  have lt: "map time_from_start (points (l_goal s)) = 0 # map (\<lambda>t. t + slow_move_offset s) ?ts"
    unfolding P(5) by (simp add: comp_def)
  have rt: "map time_from_start (points (r_goal s)) = 0 # map (\<lambda>t. t + slow_move_offset s) ?ts"
    unfolding P(6) by (simp add: comp_def)
  have lp: "positions (hd (points (l_goal s)))
      = map (l_arm_joint_angle E) (joint_names (l_goal s))"
    unfolding P(3) unfolding P(5) by simp
  have rp: "positions (hd (points (r_goal s)))
      = map (r_arm_joint_angle E) (joint_names (r_goal s))"
    unfolding P(4) unfolding P(6) by simp
  have whole: "sorted_wrt (<) (0 # map (\<lambda>t. t + slow_move_offset s) ?ts)
      = (0 < hd ?ts + slow_move_offset s)" if "sorted_wrt (<) ?ts"
  proof -
    from that have "sorted_wrt (<) (map (\<lambda>t. t + slow_move_offset s) ?ts)"
      unfolding sorted_wrt_shift .
    moreover have "map (\<lambda>t. t + slow_move_offset s) ?ts \<noteq> []" by simp
    ultimately have "sorted_wrt (<) (0 # map (\<lambda>t. t + slow_move_offset s) ?ts)
        = (0 < hd (map (\<lambda>t. t + slow_move_offset s) ?ts))"
      by (rule sorted_wrt_zero_Cons)
    then show ?thesis by simp
  qed
  have inc: "sorted_wrt (<) ?ts \<longrightarrow>
      sorted_wrt (<) (tl (map time_from_start (points (l_goal s))))
      \<and> sorted_wrt (<) (tl (map time_from_start (points (r_goal s))))
      \<and> sorted_wrt (<) (map time_from_start (points (l_goal s)))
          = (0 < hd ?ts + slow_move_offset s)
      \<and> sorted_wrt (<) (map time_from_start (points (r_goal s)))
          = (0 < hd ?ts + slow_move_offset s)"
    unfolding lt rt list.sel sorted_wrt_shift using whole by blast
  note t' = t [unfolded lines list.sel]
  show ?thesis unfolding lines list.sel
    by (rule exI [of _ ?ts]) (intro conjI t' lt rt lp rp P(3) P(4) inc)
qed



theorem parse_file_arm_trajectories_witness:
  "parse_file example_env example_file new_trajectory = Inr example_session
   \<and> map time_from_start (points (l_goal example_session)) = [0, 3, 5]
   \<and> map time_from_start (points (r_goal example_session)) = [0, 3, 5]
   \<and> positions (hd (points (l_goal example_session))) = [l_arm_joint_angle example_env ''left_s0'']
   \<and> positions (hd (points (r_goal example_session))) = [r_arm_joint_angle example_env ''right_s0'']
   \<and> sorted_wrt (<) (tl (map time_from_start (points (l_goal example_session))))
   \<and> sorted_wrt (<) (tl (map time_from_start (points (r_goal example_session))))
   \<and> sorted_wrt (<) (map time_from_start (points (l_goal example_session)))"
proof -
  from parse_file_arm_trajectories [OF example_session_parsed example_two_lines]
  obtain ts where all:
    "map (row_time example_env) (tl example_file) = map Some ts
      \<and> map time_from_start (points (l_goal example_session))
          = 0 # map (\<lambda>t. t + slow_move_offset example_session) ts
      \<and> map time_from_start (points (r_goal example_session))
          = 0 # map (\<lambda>t. t + slow_move_offset example_session) ts
      \<and> positions (hd (points (l_goal example_session)))
          = map (l_arm_joint_angle example_env) (joint_names (l_goal example_session))
      \<and> positions (hd (points (r_goal example_session)))
          = map (r_arm_joint_angle example_env) (joint_names (r_goal example_session))
      \<and> joint_names (l_goal example_session)
          = filter is_left (split_comma (rstrip (hd example_file)))
      \<and> joint_names (r_goal example_session)
          = filter is_right (split_comma (rstrip (hd example_file)))
      \<and> (sorted_wrt (<) ts \<longrightarrow>
            sorted_wrt (<) (tl (map time_from_start (points (l_goal example_session))))
          \<and> sorted_wrt (<) (tl (map time_from_start (points (r_goal example_session))))
          \<and> sorted_wrt (<) (map time_from_start (points (l_goal example_session)))
              = (0 < hd ts + slow_move_offset example_session)
          \<and> sorted_wrt (<) (map time_from_start (points (r_goal example_session)))
              = (0 < hd ts + slow_move_offset example_session))" ..
  note ts = all [THEN conjunct1]
  note lt = all [THEN conjunct2, THEN conjunct1]
  note rt = all [THEN conjunct2, THEN conjunct2, THEN conjunct1]
  note lp = all [THEN conjunct2, THEN conjunct2, THEN conjunct2, THEN conjunct1]
  note rp = all [THEN conjunct2, THEN conjunct2, THEN conjunct2, THEN conjunct2,
      THEN conjunct1]
  note inc = all [THEN conjunct2, THEN conjunct2, THEN conjunct2, THEN conjunct2,
      THEN conjunct2, THEN conjunct2, THEN conjunct2]
  from ts example_row_times have "map Some ts = map Some [1, 3]" by (rule trans [OF sym])
  then have "ts = [1, 3]" by (simp only: inj_map_eq_map [OF inj_Some])
  moreover have "slow_move_offset example_session = 2"
      "joint_names (l_goal example_session) = [''left_s0'']"
      "joint_names (r_goal example_session) = [''right_s0'']"
    by (simp_all add: example_session_def)
  ultimately show ?thesis using lt rt lp rp inc example_session_parsed by simp
qed



text \<open>
  On the scenario of the specification the robot is already at the first commanded
  pose and the recording starts at 0: the initial point and the first recorded point
  both have elapsed time 0.
\<close>

theorem parse_file_arm_times_counterexample:
  "parse_file scenario_env scenario_file new_trajectory = Inr scenario_session
   \<and> map (row_time scenario_env) (tl scenario_file) = map Some [0, 2]
   \<and> sorted_wrt (<) [0, 2 :: real]
   \<and> map time_from_start (points (l_goal scenario_session)) = [0, 0, 2]
   \<and> map time_from_start (points (r_goal scenario_session)) = [0, 0, 2]
   \<and> \<not> sorted_wrt (<) (map time_from_start (points (l_goal scenario_session)))
   \<and> \<not> sorted_wrt (<) (map time_from_start (points (r_goal scenario_session)))"
proof -
  have "map (row_time scenario_env) (tl scenario_file) = map Some [0, 2]"
    by (simp add: row_time_def scenario_env_def scenario_file_def example_defs)
  then show ?thesis
    using scenario_parse by (simp add: scenario_session_def)
qed

subsection \<open>The requested start offset (claim C5)\<close>

text \<open>
  Claim C5. Whenever \<^verbatim>\<open>parse_file\<close> returns a session for a file with at least one data
  row, \<^verbatim>\<open>_trajectory_start_offset\<close> is \<^verbatim>\<open>_slow_move_offset\<close> plus the recorded time
  of the first data row, whatever that time is, and \<^verbatim>\<open>_slow_move_offset\<close> is the value
  \<^verbatim>\<open>find_start_offset\<close> returned for that row.
\<close>

theorem requested_start_offset_formula:
  assumes "parse_file E lines s0 = Inr s" and "tl lines \<noteq> []"
  shows "\<exists>t0. row_time E (lines ! 1) = Some t0
      \<and> trajectory_start_offset s = slow_move_offset s + t0
      \<and> find_start_offset E (split_comma (rstrip (hd lines)))
            (row_cmd E (split_comma (rstrip (hd lines))) (lines ! 1))
          = Inr (slow_move_offset s)"
proof -
  from assms(2) obtain header line rest where lines: "lines = header # line # rest"
    using two_lines by blast
  let ?jn = "split_comma (rstrip header)"
  from assms(1) obtain so v0 where
    so: "find_start_offset E ?jn (row_cmd E ?jn line) = Inr so" and
    v0: "row_time E line = Some v0" and
    s: "s = add_rows E ?jn so (line # rest) (with_start E so v0 (add_joint_names ?jn s0))"
    unfolding lines parse_file_Inr by blast
  have "slow_move_offset s = so" "trajectory_start_offset s = so + v0"
    unfolding s by (simp_all add: add_rows_fields)
  with so v0 show ?thesis unfolding lines by simp
qed

theorem requested_start_offset_formula_witness:
  "parse_file example_env example_file new_trajectory = Inr example_session
   \<and> row_time example_env (example_file ! 1) = Some 1
   \<and> slow_move_offset example_session = 2
   \<and> trajectory_start_offset example_session = 2 + 1"
proof -
  from requested_start_offset_formula [OF example_session_parsed example_two_lines]
  obtain t0 where all: "row_time example_env (example_file ! 1) = Some t0
      \<and> trajectory_start_offset example_session = slow_move_offset example_session + t0
      \<and> find_start_offset example_env (split_comma (rstrip (hd example_file)))
            (row_cmd example_env (split_comma (rstrip (hd example_file))) (example_file ! 1))
          = Inr (slow_move_offset example_session)" ..
  have t: "row_time example_env (example_file ! 1) = Some 1"
    using example_row_times by (simp add: example_file_def)
  with all have "t0 = 1" by simp
  moreover have "slow_move_offset example_session = 2" by (simp add: example_session_def)
  ultimately show ?thesis using all t example_session_parsed by simp
qed

lemma gripper_idx_bounds:
  "- 1 \<le> gripper_idx ts now \<and> gripper_idx ts now < int (length ts)"
  using bisect_le_length [of ts now] by (simp add: gripper_idx_def)

lemma py_index_in_range:
  assumes "- int (length xs) \<le> i" and "i < int (length xs)"
  shows "\<exists>p. py_index xs i = Inr p \<and> p \<in> set xs"
proof (cases "0 \<le> i")
  case True
  with assms show ?thesis by (simp add: py_index_def)
next
  case False
  with assms have "nat (int (length xs) + i) < length xs" by linarith
  with False assms show ?thesis by (simp add: py_index_def)
qed

lemma gripper_command_Inr:
  assumes "- int (length cmd) \<le> idx" and "idx < int (length cmd)"
    and "\<forall>p\<in>set cmd. positions p \<noteq> []"
  shows "\<exists>es. gripper_command gtype sd cmd idx = Inr es"
proof -
  from py_index_in_range [OF assms(1,2)] obtain p where
    p: "py_index cmd idx = Inr p" "p \<in> set cmd" by blast
  with assms(3) have "positions p \<noteq> []" by simp
  then have "- int (length (positions p)) \<le> 0" "0 < int (length (positions p))" by simp_all
  from py_index_in_range [OF this] obtain v where "py_index (positions p) 0 = Inr v" by blast
  with p show ?thesis by (simp add: gripper_command_def)
qed

lemma gripper_iteration_Inr:
  assumes "length (points (l_grip s)) = length (points (r_grip s))"
    and "points (r_grip s) \<noteq> []"
    and "\<forall>p\<in>set (points (l_grip s)). positions p \<noteq> []"
    and "\<forall>p\<in>set (points (r_grip s)). positions p \<noteq> []"
  shows "\<exists>es. gripper_iteration s R now = Inr es"
proof -
  let ?idx = "gripper_idx (map time_from_start (points (r_grip s))) now"
  from assms(2) have "0 < length (points (r_grip s))" by simp
  then have "- int (length (points (r_grip s))) \<le> - 1" by linarith
  with gripper_idx_bounds [of "map time_from_start (points (r_grip s))" now]
  have b: "- int (length (points (r_grip s))) \<le> ?idx" "?idx < int (length (points (r_grip s)))"
    by simp_all
  from gripper_command_Inr [OF b assms(4)] obtain r where
    r: "gripper_command (r_gripper_type R) Right (points (r_grip s)) ?idx = Inr r" by blast
  from b assms(1) have "- int (length (points (l_grip s))) \<le> ?idx"
      "?idx < int (length (points (l_grip s)))" by simp_all
  from gripper_command_Inr [OF this assms(3)] obtain l where
    "gripper_command (l_gripper_type R) Left (points (l_grip s)) ?idx = Inr l" by blast
  with r show ?thesis by (simp add: gripper_iteration_def)
qed


lemma gripper_loop_Inr:
  assumes "\<And>now. \<exists>es. gripper_iteration s R now = Inr es"
  shows "\<exists>es. gripper_loop s R start_time end_time obs = Inr es"
proof (induction obs)
  case Nil
  show ?case by simp
next
  case (Cons ob obs)
  obtain now shutdown where ob: "ob = (now, shutdown)" by (cases ob)
  from assms obtain es where "gripper_iteration s R (now - start_time) = Inr es" by blast
  moreover from Cons.IH obtain rest where
    "gripper_loop s R start_time end_time obs = Inr rest" by blast
  ultimately show ?case by (simp add: ob Let_def)
qed

lemma execute_gripper_commands_Inr:
  assumes "length (points (l_grip s)) = length (points (r_grip s))"
    and "points (r_grip s) \<noteq> []"
    and "\<forall>p\<in>set (points (l_grip s)). positions p \<noteq> []"
    and "\<forall>p\<in>set (points (r_grip s)). positions p \<noteq> []"
  shows "\<exists>es. execute_gripper_commands s R now0 obs = Inr es"
proof -
  from assms(2) have "map time_from_start (points (r_grip s)) \<noteq> []" by simp
  then have "py_index (map time_from_start (points (r_grip s))) (- 1)
      = Inr (last (map time_from_start (points (r_grip s))))"
    by (rule py_index_minus_one)
  moreover from gripper_loop_Inr [of s R] gripper_iteration_Inr [OF assms]
  have "\<exists>es. gripper_loop s R (now0 - trajectory_actual_offset s)
      (last (map time_from_start (points (r_grip s)))) obs = Inr es" by blast
  ultimately show ?thesis by (simp add: execute_gripper_commands_def Let_def)
qed

subsection \<open>The gripper trajectories (claim C10)\<close>

text \<open>
  Claim C10. Whenever \<^verbatim>\<open>parse_file\<close> returns a session (parsing into a new session),
  both gripper trajectories have one point per data row, and both have the elapsed times
  \<open>t + slow_move_offset\<close> for the recorded times \<open>t\<close> of the rows. With at least one data
  row, the index the control loop computes from the right gripper's times is, at every
  elapsed time, a valid Python index into the left gripper's points (it lies between
  \<open>-1\<close> and the last index), the body of the loop never raises, and neither does the
  loop, for any clock.
\<close>

theorem gripper_trajectories_aligned:
  assumes "parse_file E lines new_trajectory = Inr s"
  shows "length (points (l_grip s)) = length (tl lines)
       \<and> length (points (r_grip s)) = length (tl lines)
       \<and> (\<exists>ts. map (row_time E) (tl lines) = map Some ts
            \<and> map time_from_start (points (l_grip s)) = map (\<lambda>t. t + slow_move_offset s) ts
            \<and> map time_from_start (points (r_grip s)) = map (\<lambda>t. t + slow_move_offset s) ts)
       \<and> (tl lines \<noteq> [] \<longrightarrow>
            (\<forall>now. - int (length (points (l_grip s)))
                      \<le> gripper_idx (map time_from_start (points (r_grip s))) now
                  \<and> gripper_idx (map time_from_start (points (r_grip s))) now
                      < int (length (points (l_grip s)))
                  \<and> (\<exists>p. py_index (points (l_grip s))
                        (gripper_idx (map time_from_start (points (r_grip s))) now) = Inr p))
          \<and> (\<forall>R now. \<exists>es. gripper_iteration s R now = Inr es)
          \<and> (\<forall>R now0 obs. \<exists>es. execute_gripper_commands s R now0 obs = Inr es))"
proof (cases "tl lines = []")
  case True
  from assms have "lines \<noteq> []" by (auto simp add: parse_file_def)
  with True obtain header where lines: "lines = [header]" by (cases lines) auto
  from assms have s: "s = add_joint_names (split_comma (rstrip header)) new_trajectory"
    unfolding lines parse_file_header_only by simp
  have "points (l_grip s) = []" "points (r_grip s) = []"
    unfolding s by (simp_all add: add_joint_names_other new_trajectory_def empty_goal_def)
  then show ?thesis unfolding lines by simp
next
  case False
  then obtain header line rest where lines: "lines = header # line # rest"
    using two_lines by blast
  let ?ts = "map (\<lambda>line. the (row_time E line)) (line # rest)"
  let ?rt = "map time_from_start (points (r_grip s))"
  note P = parse_file_new [OF assms [unfolded lines]]
  have t: "map (row_time E) (line # rest) = map Some ?ts"
    using row_times_Some [OF P(9)] by simp
  have lt: "map time_from_start (points (l_grip s)) = map (\<lambda>t. t + slow_move_offset s) ?ts"
    unfolding P(7) by (simp add: comp_def)
  have rt: "?rt = map (\<lambda>t. t + slow_move_offset s) ?ts"
    unfolding P(8) by (simp add: comp_def)
  have len: "length (points (l_grip s)) = length (line # rest)"
      "length (points (r_grip s)) = length (line # rest)"
    unfolding P(7) P(8) by simp_all
  have ne: "points (r_grip s) \<noteq> []" unfolding P(8) by simp
  have pos: "\<forall>p\<in>set (points (l_grip s)). positions p \<noteq> []"
      "\<forall>p\<in>set (points (r_grip s)). positions p \<noteq> []"
    unfolding P(7) P(8) by auto
  have eq: "length (points (l_grip s)) = length (points (r_grip s))" using len by simp
  have idx: "- int (length (points (l_grip s))) \<le> gripper_idx ?rt now
      \<and> gripper_idx ?rt now < int (length (points (l_grip s)))
      \<and> (\<exists>p. py_index (points (l_grip s)) (gripper_idx ?rt now) = Inr p)" for now
  proof -
    from len have "- int (length (points (l_grip s))) \<le> - 1" by simp
    with gripper_idx_bounds [of ?rt now] eq
    have b: "- int (length (points (l_grip s))) \<le> gripper_idx ?rt now"
        "gripper_idx ?rt now < int (length (points (l_grip s)))" by simp_all
    with py_index_in_range [OF b] show ?thesis by blast
  qed
  have it: "\<exists>es. gripper_iteration s R now = Inr es" for R now
    by (rule gripper_iteration_Inr [OF eq ne pos])
  have ex: "\<exists>es. execute_gripper_commands s R now0 obs = Inr es" for R now0 obs
    by (rule execute_gripper_commands_Inr [OF eq ne pos])
  have times: "\<exists>ts. map (row_time E) (tl lines) = map Some ts
      \<and> map time_from_start (points (l_grip s)) = map (\<lambda>t. t + slow_move_offset s) ts
      \<and> map time_from_start (points (r_grip s)) = map (\<lambda>t. t + slow_move_offset s) ts"
    unfolding lines list.sel by (rule exI [of _ ?ts]) (intro conjI t lt rt)
  from len idx it ex times show ?thesis unfolding lines list.sel by simp
qed


theorem gripper_trajectories_aligned_witness:
  "parse_file example_env example_file new_trajectory = Inr example_session
   \<and> length (points (l_grip example_session)) = 2
   \<and> length (points (r_grip example_session)) = 2
   \<and> map time_from_start (points (l_grip example_session)) = [3, 5]
   \<and> map time_from_start (points (r_grip example_session)) = [3, 5]
   \<and> gripper_idx (map time_from_start (points (r_grip example_session))) 1 = - 1
   \<and> py_index (points (l_grip example_session))
         (gripper_idx (map time_from_start (points (r_grip example_session))) 1)
       = Inr \<lparr>positions = [80], time_from_start = 5\<rparr>
   \<and> gripper_iteration example_session example_robot 4
       = Inr [CommandPosition Right 50, CommandPosition Left 50]"
proof -
  note T = gripper_trajectories_aligned [OF example_session_parsed]
  have len: "length (tl example_file) = 2" by (simp add: example_file_def)
  from T [THEN conjunct1] len have l1: "length (points (l_grip example_session)) = 2" by simp
  from T [THEN conjunct2, THEN conjunct1] len
  have l2: "length (points (r_grip example_session)) = 2" by simp
  from T [THEN conjunct2, THEN conjunct2, THEN conjunct1]
  obtain ts where all: "map (row_time example_env) (tl example_file) = map Some ts
      \<and> map time_from_start (points (l_grip example_session))
          = map (\<lambda>t. t + slow_move_offset example_session) ts
      \<and> map time_from_start (points (r_grip example_session))
          = map (\<lambda>t. t + slow_move_offset example_session) ts" ..
  from all [THEN conjunct1] example_row_times have "map Some ts = map Some [1, 3]"
    by (rule trans [OF sym])
  then have ts: "ts = [1, 3]" by (simp only: inj_map_eq_map [OF inj_Some])
  have slow: "slow_move_offset example_session = 2" by (simp add: example_session_def)
  from all [THEN conjunct2, THEN conjunct1]
  have t1: "map time_from_start (points (l_grip example_session)) = [3, 5]"
    unfolding ts slow by simp
  from all [THEN conjunct2, THEN conjunct2]
  have t2: "map time_from_start (points (r_grip example_session)) = [3, 5]"
    unfolding ts slow by simp
  have i: "gripper_idx (map time_from_start (points (r_grip example_session))) 1 = - 1"
    unfolding t2 by (simp add: gripper_idx_def bisect_def bisect_loop.simps)
  from T [THEN conjunct2, THEN conjunct2, THEN conjunct2, THEN mp, OF example_two_lines,
      THEN conjunct1, THEN spec, of 1]
  obtain p where "py_index (points (l_grip example_session))
      (gripper_idx (map time_from_start (points (r_grip example_session))) 1) = Inr p"
    by blast
  then have p: "py_index (points (l_grip example_session))
      (gripper_idx (map time_from_start (points (r_grip example_session))) 1)
        = Inr \<lparr>positions = [80], time_from_start = 5\<rparr>"
    unfolding i by (simp add: py_index_def example_session_def)
  have g: "gripper_iteration example_session example_robot 4
      = Inr [CommandPosition Right 50, CommandPosition Left 50]"
    by (simp add: gripper_iteration_def gripper_command_def gripper_idx_def bisect_def
        bisect_loop.simps py_index_def example_session_def example_robot_def)
  show ?thesis by (intro conjI example_session_parsed l1 l2 t1 t2 i p g)
qed

subsection \<open>Malformed cells (claim C7)\<close>

lemma row_ok_new:
  "row_ok E jnames (add_joint_names jnames new_trajectory) row =
     (row_time E row \<noteq> None
      \<and> (\<forall>j\<in>set jnames. is_arm j \<longrightarrow> row_cmd E jnames row j \<noteq> None)
      \<and> row_cmd E jnames row ''left_gripper'' \<noteq> None
      \<and> row_cmd E jnames row ''right_gripper'' \<noteq> None)"
  unfolding row_ok_def required_keys_new by (auto simp add: is_arm_def)

lemma find_start_offset_returns:
  "(\<exists>so. find_start_offset E jnames pos = Inr so) =
     ((\<exists>j\<in>set jnames. is_arm j)
      \<and> (\<forall>j\<in>set jnames. is_arm j \<longrightarrow> pos j \<noteq> None)
      \<and> (\<forall>j\<in>set jnames. is_arm j \<longrightarrow> default_velocity E j \<noteq> 0))"
  unfolding find_start_offset_eq by auto

lemma parse_file_new_succeeds:
  "(\<exists>s. parse_file E (header # line # rest) new_trajectory = Inr s) =
     ((\<exists>j\<in>set (split_comma (rstrip header)). is_arm j)
      \<and> (\<forall>j\<in>set (split_comma (rstrip header)). is_arm j \<longrightarrow> default_velocity E j \<noteq> 0)
      \<and> (\<forall>row\<in>set (line # rest).
            row_ok E (split_comma (rstrip header))
              (add_joint_names (split_comma (rstrip header)) new_trajectory) row))"
proof -
  let ?jn = "split_comma (rstrip header)"
  let ?s1 = "add_joint_names ?jn new_trajectory"
  have "(\<exists>s. parse_file E (header # line # rest) new_trajectory = Inr s) =
      ((\<exists>so. find_start_offset E ?jn (row_cmd E ?jn line) = Inr so)
       \<and> (\<exists>v0. row_time E line = Some v0)
       \<and> list_all (row_ok E ?jn ?s1) (line # rest))"
    unfolding parse_file_Inr by blast
  also have "\<dots> = ((\<exists>j\<in>set ?jn. is_arm j)
      \<and> (\<forall>j\<in>set ?jn. is_arm j \<longrightarrow> default_velocity E j \<noteq> 0)
      \<and> (\<forall>row\<in>set (line # rest). row_ok E ?jn ?s1 row))"
    unfolding find_start_offset_returns list_all_iff
    by (auto simp add: row_ok_new)
  finally show ?thesis .
qed

lemma py_bind_eq_Inl:
  "(py_bind m f = Inl e) = (m = Inl e \<or> (\<exists>v. m = Inr v \<and> f v = Inl e))"
  by (cases m) simp_all

lemma row_value0_line_Inl:
  "(row_value0 (snd (clean_line E line jnames)) = Inl e)
     = (e = TypeError \<and> row_time E line = None)"
  by (auto simp add: row_value0_clean_line split: option.splits)

lemma getitems_Inl:
  "(getitems cmd names = Inl e) = (e = KeyError \<and> \<not> set names \<subseteq> dom cmd)"
  by (auto simp add: getitems_eq)

lemma add_row_line_Inl:
  assumes "add_row (row_cmd E jnames line) (snd (clean_line E line jnames)) so s = Inl e"
  shows "(e = KeyError \<and> \<not> set (required_keys s) \<subseteq> dom (row_cmd E jnames line))
       \<or> (e = TypeError \<and> row_time E line = None)"
  using assms
  unfolding add_row_def Let_def py_bind_eq_Inl getitems_Inl row_value0_line_Inl
  by (auto simp add: required_keys_def)

lemma parse_rows_Suc_Inl:
  assumes "parse_rows E jnames (Suc k) so rows s = Inl e"
  shows "(e = KeyError
            \<and> (\<exists>row\<in>set rows. \<not> set (required_keys s) \<subseteq> dom (row_cmd E jnames row)))
       \<or> (e = TypeError \<and> (\<exists>row\<in>set rows. row_time E row = None))"
  using assms
proof (induction rows arbitrary: s k)
  case Nil
  then show ?case by simp
next
  case (Cons line rest)
  from Cons.prems consider
      (here) "add_row (row_cmd E jnames line) (snd (clean_line E line jnames)) so s = Inl e"
    | (later) s2 where
        "add_row (row_cmd E jnames line) (snd (clean_line E line jnames)) so s = Inr s2"
        "parse_rows E jnames (Suc (Suc k)) so rest s2 = Inl e"
    unfolding parse_rows_step py_bind_eq_Inl by blast
  then show ?case
  proof cases
    case here
    from add_row_line_Inl [OF here] show ?thesis by auto
  next
    case later
    from later(1) have "required_keys s2 = required_keys s"
      unfolding add_row_line_Inr by simp
    with Cons.IH [OF later(2)] show ?thesis by auto
  qed
qed

lemma find_start_offset_Inl:
  assumes "find_start_offset E jnames pos = Inl e"
  shows "(e = KeyError \<and> (\<exists>j\<in>set jnames. is_arm j \<and> pos j = None))
       \<or> (e = ZeroDivisionError \<and> (\<exists>j\<in>set jnames. is_arm j \<and> default_velocity E j = 0))
       \<or> (e = ValueError \<and> \<not> (\<exists>j\<in>set jnames. is_arm j))"
  using assms unfolding find_start_offset_eq by (auto split: if_splits)


lemma required_keys_new_missing:
  "(\<not> set (required_keys (add_joint_names jnames new_trajectory)) \<subseteq> dom cmd) =
     ((\<exists>j\<in>set jnames. is_arm j \<and> cmd j = None)
      \<or> cmd ''left_gripper'' = None \<or> cmd ''right_gripper'' = None)"
  unfolding required_keys_new by (auto simp add: is_arm_def domIff)

lemma first_row_Inl:
  assumes "first_row E jnames cmd values s = Inl e"
  shows "find_start_offset E jnames cmd = Inl e \<or> row_value0 values = Inl e"
  using assms unfolding first_row_def Let_def py_bind_eq_Inl by auto

lemma parse_file_new_Inl:
  assumes "parse_file E (header # rows) new_trajectory = Inl e"
  defines "jnames \<equiv> split_comma (rstrip header)"
  shows "(e = KeyError
            \<and> (\<exists>row\<in>set rows.
                  (\<exists>j\<in>set jnames. is_arm j \<and> row_cmd E jnames row j = None)
                  \<or> row_cmd E jnames row ''left_gripper'' = None
                  \<or> row_cmd E jnames row ''right_gripper'' = None))
       \<or> (e = TypeError \<and> (\<exists>row\<in>set rows. row_time E row = None))
       \<or> (e = ZeroDivisionError \<and> (\<exists>j\<in>set jnames. is_arm j \<and> default_velocity E j = 0))
       \<or> (e = ValueError \<and> \<not> (\<exists>j\<in>set jnames. is_arm j))"
proof (cases rows)
  case Nil
  with assms(1) show ?thesis by (simp add: parse_file_def)
next
  case (Cons line rest)
  let ?s0 = "add_joint_names jnames new_trajectory"
  let ?cmd = "row_cmd E jnames line"
  let ?vals = "snd (clean_line E line jnames)"
  from assms(1) have p: "parse_rows E jnames 0 0 (line # rest) ?s0 = Inl e"
    unfolding Cons jnames_def parse_file_def by (simp only: list.case Let_def)
  then consider
      (first) "first_row E jnames ?cmd ?vals ?s0 = Inl e"
    | (row) s1 so where "first_row E jnames ?cmd ?vals ?s0 = Inr (s1, so)"
        "add_row ?cmd ?vals so s1 = Inl e"
    | (later) s1 so s2 where "first_row E jnames ?cmd ?vals ?s0 = Inr (s1, so)"
        "add_row ?cmd ?vals so s1 = Inr s2" "parse_rows E jnames (Suc 0) so rest s2 = Inl e"
    unfolding parse_rows_first py_bind_eq_Inl by (auto simp add: py_bind_eq_Inl)
  then show ?thesis
  proof cases
    case first
    from first_row_Inl [OF first] show ?thesis
    proof
      assume "find_start_offset E jnames ?cmd = Inl e"
      from find_start_offset_Inl [OF this] show ?thesis unfolding Cons by auto
    next
      assume "row_value0 ?vals = Inl e"
      then show ?thesis unfolding row_value0_line_Inl Cons by auto
    qed
  next
    case row
    from row(1) have k: "required_keys s1 = required_keys ?s0"
      unfolding first_row_Inr by (auto simp add: required_keys_def)
    from add_row_line_Inl [OF row(2)] show ?thesis
      unfolding k required_keys_new_missing Cons by auto
  next
    case later
    from later(1) have k1: "required_keys s1 = required_keys ?s0"
      unfolding first_row_Inr by (auto simp add: required_keys_def)
    from later(2) have k2: "required_keys s2 = required_keys s1"
      unfolding add_row_line_Inr by simp
    from parse_rows_Suc_Inl [OF later(3)] show ?thesis
      unfolding k2 k1 required_keys_new_missing Cons by auto
  qed
qed

text \<open>
  Claim C7, as the code has it. \<^verbatim>\<open>_clean_line\<close> cannot raise; with distinct joint
  names in the header, the command mapping of a row holds for column \<open>k \<ge> 1\<close> exactly
  what \<^verbatim>\<open>float\<close> made of the cell, so a cell \<^verbatim>\<open>float\<close> rejects is absent from the
  mapping. \<^verbatim>\<open>parse_file\<close> however returns a session only if every data row has a
  numeric time and a command for every arm joint of the header and for both grippers.
  A file with data rows is parsed without error exactly when all its rows are complete
  in this sense, the header names an arm joint and no arm joint has velocity 0; cells of
  other columns play no part. When \<^verbatim>\<open>parse_file\<close> raises, it raises \<^verbatim>\<open>KeyError\<close> only
  if some row lacks a command for an arm joint or a gripper, \<^verbatim>\<open>TypeError\<close> only if some
  row has no numeric time, \<^verbatim>\<open>ZeroDivisionError\<close> only if an arm joint has velocity 0,
  and \<^verbatim>\<open>ValueError\<close> only if the header names no arm joint. So, with an arm joint in
  the header and no velocity 0: if every time is numeric and some row lacks such a
  command the exception is \<^verbatim>\<open>KeyError\<close>, and if no row lacks one and some time is not
  numeric it is \<^verbatim>\<open>TypeError\<close>. A file with no line at all raises \<^verbatim>\<open>IndexError\<close>.
\<close>

theorem clean_line_excludes_parse_file_requires:
  "(distinct (tl jnames) \<and> 0 < k \<and> k < length jnames
        \<and> k < length (split_comma (rstrip line)) \<longrightarrow>
      row_cmd E jnames line (jnames ! k) = float_of E (split_comma (rstrip line) ! k))
   \<and> snd (clean_line E line jnames) = map (float_of E) (split_comma (rstrip line))
   \<and> (parse_file E (header # rows) new_trajectory = Inr s \<longrightarrow>
        (\<forall>row\<in>set rows.
           row_time E row \<noteq> None
           \<and> (\<forall>j\<in>set (split_comma (rstrip header)).
                 is_arm j \<longrightarrow> row_cmd E (split_comma (rstrip header)) row j \<noteq> None)
           \<and> row_cmd E (split_comma (rstrip header)) row ''left_gripper'' \<noteq> None
           \<and> row_cmd E (split_comma (rstrip header)) row ''right_gripper'' \<noteq> None))
   \<and> (rows \<noteq> [] \<longrightarrow>
        (\<exists>s'. parse_file E (header # rows) new_trajectory = Inr s') =
          ((\<exists>j\<in>set (split_comma (rstrip header)). is_arm j)
           \<and> (\<forall>j\<in>set (split_comma (rstrip header)).
                 is_arm j \<longrightarrow> default_velocity E j \<noteq> 0)
           \<and> (\<forall>row\<in>set rows.
                 row_time E row \<noteq> None
                 \<and> (\<forall>j\<in>set (split_comma (rstrip header)).
                       is_arm j \<longrightarrow> row_cmd E (split_comma (rstrip header)) row j \<noteq> None)
                 \<and> row_cmd E (split_comma (rstrip header)) row ''left_gripper'' \<noteq> None
                 \<and> row_cmd E (split_comma (rstrip header)) row ''right_gripper'' \<noteq> None)))
   \<and> (parse_file E (header # rows) new_trajectory = Inl e \<longrightarrow>
        ((e = KeyError
            \<and> (\<exists>row\<in>set rows.
                  (\<exists>j\<in>set (split_comma (rstrip header)).
                      is_arm j \<and> row_cmd E (split_comma (rstrip header)) row j = None)
                  \<or> row_cmd E (split_comma (rstrip header)) row ''left_gripper'' = None
                  \<or> row_cmd E (split_comma (rstrip header)) row ''right_gripper'' = None))
         \<or> (e = TypeError \<and> (\<exists>row\<in>set rows. row_time E row = None))
         \<or> (e = ZeroDivisionError
              \<and> (\<exists>j\<in>set (split_comma (rstrip header)).
                    is_arm j \<and> default_velocity E j = 0))
         \<or> (e = ValueError \<and> \<not> (\<exists>j\<in>set (split_comma (rstrip header)). is_arm j))))
   \<and> ((\<exists>j\<in>set (split_comma (rstrip header)). is_arm j)
        \<and> (\<forall>j\<in>set (split_comma (rstrip header)).
              is_arm j \<longrightarrow> default_velocity E j \<noteq> 0)
        \<and> (\<forall>row\<in>set rows. row_time E row \<noteq> None)
        \<and> (\<exists>row\<in>set rows.
              (\<exists>j\<in>set (split_comma (rstrip header)).
                  is_arm j \<and> row_cmd E (split_comma (rstrip header)) row j = None)
              \<or> row_cmd E (split_comma (rstrip header)) row ''left_gripper'' = None
              \<or> row_cmd E (split_comma (rstrip header)) row ''right_gripper'' = None)
      \<longrightarrow> parse_file E (header # rows) new_trajectory = Inl KeyError)
   \<and> ((\<exists>j\<in>set (split_comma (rstrip header)). is_arm j)
        \<and> (\<forall>j\<in>set (split_comma (rstrip header)).
              is_arm j \<longrightarrow> default_velocity E j \<noteq> 0)
        \<and> (\<forall>row\<in>set rows.
              (\<forall>j\<in>set (split_comma (rstrip header)).
                  is_arm j \<longrightarrow> row_cmd E (split_comma (rstrip header)) row j \<noteq> None)
              \<and> row_cmd E (split_comma (rstrip header)) row ''left_gripper'' \<noteq> None
              \<and> row_cmd E (split_comma (rstrip header)) row ''right_gripper'' \<noteq> None)
        \<and> (\<exists>row\<in>set rows. row_time E row = None)
      \<longrightarrow> parse_file E (header # rows) new_trajectory = Inl TypeError)
   \<and> parse_file E [] new_trajectory = Inl IndexError"
proof (intro conjI impI)
  assume "distinct (tl jnames) \<and> 0 < k \<and> k < length jnames
      \<and> k < length (split_comma (rstrip line))"
  then show "row_cmd E jnames line (jnames ! k) = float_of E (split_comma (rstrip line) ! k)"
    by (simp add: row_cmd_distinct)
next
  show "snd (clean_line E line jnames) = map (float_of E) (split_comma (rstrip line))"
    by (simp add: clean_line_def Let_def)
next
  let ?jn = "split_comma (rstrip header)"
  assume p: "parse_file E (header # rows) new_trajectory = Inr s"
  show "\<forall>row\<in>set rows.
      row_time E row \<noteq> None
      \<and> (\<forall>j\<in>set ?jn. is_arm j \<longrightarrow> row_cmd E ?jn row j \<noteq> None)
      \<and> row_cmd E ?jn row ''left_gripper'' \<noteq> None
      \<and> row_cmd E ?jn row ''right_gripper'' \<noteq> None"
  proof (cases rows)
    case Nil
    then show ?thesis by simp
  next
    case (Cons line rest)
    from parse_file_new(9) [OF p [unfolded Cons]]
    have ok: "\<forall>row\<in>set rows. row_ok E ?jn (add_joint_names ?jn new_trajectory) row"
      unfolding Cons by (simp only: list_all_iff)
    show ?thesis
    proof
      fix row assume "row \<in> set rows"
      with ok have r: "row_time E row \<noteq> None"
          "set (filter is_left ?jn @ filter is_right ?jn @ [''left_gripper'', ''right_gripper''])
            \<subseteq> dom (row_cmd E ?jn row)"
        by (simp_all add: row_ok_def required_keys_new)
      from r(2) have "\<forall>j\<in>set ?jn. is_arm j \<longrightarrow> row_cmd E ?jn row j \<noteq> None"
        by (auto simp add: is_arm_def)
      moreover from r(2) have "row_cmd E ?jn row ''left_gripper'' \<noteq> None"
          "row_cmd E ?jn row ''right_gripper'' \<noteq> None"
        by auto
      ultimately show "row_time E row \<noteq> None
          \<and> (\<forall>j\<in>set ?jn. is_arm j \<longrightarrow> row_cmd E ?jn row j \<noteq> None)
          \<and> row_cmd E ?jn row ''left_gripper'' \<noteq> None
          \<and> row_cmd E ?jn row ''right_gripper'' \<noteq> None"
        using r(1) by blast
    qed
  qed
next
  assume "rows \<noteq> []"
  then obtain line rest where rows: "rows = line # rest" by (cases rows) auto
  show "(\<exists>s'. parse_file E (header # rows) new_trajectory = Inr s') =
      ((\<exists>j\<in>set (split_comma (rstrip header)). is_arm j)
       \<and> (\<forall>j\<in>set (split_comma (rstrip header)).
             is_arm j \<longrightarrow> default_velocity E j \<noteq> 0)
       \<and> (\<forall>row\<in>set rows.
             row_time E row \<noteq> None
             \<and> (\<forall>j\<in>set (split_comma (rstrip header)).
                   is_arm j \<longrightarrow> row_cmd E (split_comma (rstrip header)) row j \<noteq> None)
             \<and> row_cmd E (split_comma (rstrip header)) row ''left_gripper'' \<noteq> None
             \<and> row_cmd E (split_comma (rstrip header)) row ''right_gripper'' \<noteq> None))"
    unfolding rows parse_file_new_succeeds row_ok_new ..
next
  assume "parse_file E (header # rows) new_trajectory = Inl e"
  from parse_file_new_Inl [OF this]
  show "((e = KeyError
            \<and> (\<exists>row\<in>set rows.
                  (\<exists>j\<in>set (split_comma (rstrip header)).
                      is_arm j \<and> row_cmd E (split_comma (rstrip header)) row j = None)
                  \<or> row_cmd E (split_comma (rstrip header)) row ''left_gripper'' = None
                  \<or> row_cmd E (split_comma (rstrip header)) row ''right_gripper'' = None))
         \<or> (e = TypeError \<and> (\<exists>row\<in>set rows. row_time E row = None))
         \<or> (e = ZeroDivisionError
              \<and> (\<exists>j\<in>set (split_comma (rstrip header)).
                    is_arm j \<and> default_velocity E j = 0))
         \<or> (e = ValueError \<and> \<not> (\<exists>j\<in>set (split_comma (rstrip header)). is_arm j)))" .
next
  assume h: "(\<exists>j\<in>set (split_comma (rstrip header)). is_arm j)
        \<and> (\<forall>j\<in>set (split_comma (rstrip header)).
              is_arm j \<longrightarrow> default_velocity E j \<noteq> 0)
        \<and> (\<forall>row\<in>set rows. row_time E row \<noteq> None)
        \<and> (\<exists>row\<in>set rows.
              (\<exists>j\<in>set (split_comma (rstrip header)).
                  is_arm j \<and> row_cmd E (split_comma (rstrip header)) row j = None)
              \<or> row_cmd E (split_comma (rstrip header)) row ''left_gripper'' = None
              \<or> row_cmd E (split_comma (rstrip header)) row ''right_gripper'' = None)"
  show "parse_file E (header # rows) new_trajectory = Inl KeyError"
  proof (cases "parse_file E (header # rows) new_trajectory")
    case (Inl e)
    from parse_file_new_Inl [OF Inl] h have "e = KeyError" by blast
    with Inl show ?thesis by simp
  next
    case (Inr s')
    from h obtain line rest where rows: "rows = line # rest" by (cases rows) auto
    from Inr have "\<exists>s'. parse_file E (header # line # rest) new_trajectory = Inr s'"
      unfolding rows by blast
    then have "\<forall>row\<in>set rows. row_ok E (split_comma (rstrip header))
        (add_joint_names (split_comma (rstrip header)) new_trajectory) row"
      unfolding parse_file_new_succeeds rows by blast
    with h show ?thesis unfolding row_ok_new by blast
  qed
next
  assume h: "(\<exists>j\<in>set (split_comma (rstrip header)). is_arm j)
        \<and> (\<forall>j\<in>set (split_comma (rstrip header)).
              is_arm j \<longrightarrow> default_velocity E j \<noteq> 0)
        \<and> (\<forall>row\<in>set rows.
              (\<forall>j\<in>set (split_comma (rstrip header)).
                  is_arm j \<longrightarrow> row_cmd E (split_comma (rstrip header)) row j \<noteq> None)
              \<and> row_cmd E (split_comma (rstrip header)) row ''left_gripper'' \<noteq> None
              \<and> row_cmd E (split_comma (rstrip header)) row ''right_gripper'' \<noteq> None)
        \<and> (\<exists>row\<in>set rows. row_time E row = None)"
  show "parse_file E (header # rows) new_trajectory = Inl TypeError"
  proof (cases "parse_file E (header # rows) new_trajectory")
    case (Inl e)
    from parse_file_new_Inl [OF Inl] h have "e = TypeError" by blast
    with Inl show ?thesis by simp
  next
    case (Inr s')
    from h obtain line rest where rows: "rows = line # rest" by (cases rows) auto
    from Inr have "\<exists>s'. parse_file E (header # line # rest) new_trajectory = Inr s'"
      unfolding rows by blast
    then have "\<forall>row\<in>set rows. row_ok E (split_comma (rstrip header))
        (add_joint_names (split_comma (rstrip header)) new_trajectory) row"
      unfolding parse_file_new_succeeds rows by blast
    with h show ?thesis unfolding row_ok_new by blast
  qed
next
  show "parse_file E [] new_trajectory = Inl IndexError" by (simp add: parse_file_def)
qed

theorem parse_file_missing_cell_counterexample:
  "float_of example_env [] = None
   \<and> parse_file example_env [example_header, ''1.0,,0.1,50,50''] new_trajectory = Inl KeyError
   \<and> float_of example_env ''x'' = None
   \<and> parse_file example_env [example_header, ''1.0,0.6,0.1,50,50'', ''x,0.3,0.3,80,80'']
        new_trajectory = Inl TypeError"
  by (simp add: example_defs)


theorem clean_line_excludes_parse_file_requires_witness:
  "row_cmd example_env (split_comma example_header) ''1.0,,0.1,50,50'' ''left_s0'' = None
   \<and> row_cmd example_env (split_comma example_header) ''1.0,,0.1,50,50'' ''right_s0''
       = Some (1/10)
   \<and> parse_file example_env example_file new_trajectory = Inr example_session
   \<and> row_time example_env (example_file ! 2) \<noteq> None
   \<and> row_cmd example_env (split_comma (rstrip (hd example_file))) (example_file ! 2)
         ''left_s0'' \<noteq> None
   \<and> row_cmd example_env (split_comma (rstrip (hd example_file))) (example_file ! 2)
         ''right_gripper'' \<noteq> None
   \<and> parse_file example_env [example_header, ''1.0,,0.1,50,50''] new_trajectory
       = Inl KeyError
   \<and> parse_file example_env [example_header, ''1.0,0.6,0.1,50,50'', ''x,0.3,0.3,80,80'']
         new_trajectory = Inl TypeError"
proof -
  let ?jn = "split_comma example_header"
  let ?line = "''1.0,,0.1,50,50''"
  have jn: "?jn = [''time'', ''left_s0'', ''right_s0'', ''left_gripper'', ''right_gripper'']"
    by (simp add: example_header_def)
  have cells: "split_comma (rstrip ?line) = [''1.0'', [], ''0.1'', ''50'', ''50'']"
    by (simp add: rstrip_def is_space_def)
  have fl: "float_of example_env [] = None" "float_of example_env ''0.1'' = Some (1/10)"
    by (simp_all add: example_defs)
  have c1: "distinct (tl ?jn) \<and> 0 < (1::nat) \<and> 1 < length ?jn
      \<and> 1 < length (split_comma (rstrip ?line))"
    unfolding jn cells by simp
  have c2: "distinct (tl ?jn) \<and> 0 < (2::nat) \<and> 2 < length ?jn
      \<and> 2 < length (split_comma (rstrip ?line))"
    unfolding jn cells by simp
  from clean_line_excludes_parse_file_requires
    [where jnames = ?jn and k = 1 and line = ?line and E = example_env,
      THEN conjunct1, THEN mp, OF c1]
  have r1: "row_cmd example_env ?jn ?line ''left_s0'' = None"
    unfolding cells unfolding jn by (simp add: fl)
  from clean_line_excludes_parse_file_requires
    [where jnames = ?jn and k = 2 and line = ?line and E = example_env,
      THEN conjunct1, THEN mp, OF c2]
  have r2: "row_cmd example_env ?jn ?line ''right_s0'' = Some (1/10)"
    unfolding cells unfolding jn by (simp add: fl)
  have ef: "example_file = hd example_file # tl example_file" by (simp add: example_file_def)
  have p: "parse_file example_env (hd example_file # tl example_file) new_trajectory
      = Inr example_session"
    using example_session_parsed ef by simp
  have mem: "example_file ! 2 \<in> set (tl example_file)" by (simp add: example_file_def)
  have arm: "''left_s0'' \<in> set (split_comma (rstrip (hd example_file)))" "is_arm ''left_s0''"
    by (simp_all add: example_file_def example_header_def rstrip_def is_space_def
        is_arm_def is_left_def)
  from clean_line_excludes_parse_file_requires
    [where E = example_env and header = "hd example_file" and rows = "tl example_file"
      and s = example_session, THEN conjunct2, THEN conjunct2, THEN conjunct1, THEN mp, OF p,
      THEN bspec, OF mem]
  have row: "row_time example_env (example_file ! 2) \<noteq> None
      \<and> (\<forall>j\<in>set (split_comma (rstrip (hd example_file))).
            is_arm j \<longrightarrow>
            row_cmd example_env (split_comma (rstrip (hd example_file))) (example_file ! 2) j
              \<noteq> None)
      \<and> row_cmd example_env (split_comma (rstrip (hd example_file))) (example_file ! 2)
            ''left_gripper'' \<noteq> None
      \<and> row_cmd example_env (split_comma (rstrip (hd example_file))) (example_file ! 2)
            ''right_gripper'' \<noteq> None" .
  from row [THEN conjunct2, THEN conjunct1, THEN bspec, OF arm(1), THEN mp, OF arm(2)]
  have r3: "row_cmd example_env (split_comma (rstrip (hd example_file))) (example_file ! 2)
      ''left_s0'' \<noteq> None" .
  have hdr: "split_comma (rstrip example_header)
      = [''time'', ''left_s0'', ''right_s0'', ''left_gripper'', ''right_gripper'']"
    by (simp add: example_header_def rstrip_def is_space_def)
  have arm: "is_arm ''left_s0''" "is_arm ''right_s0''" "\<not> is_arm ''time''"
      "\<not> is_arm ''left_gripper''" "\<not> is_arm ''right_gripper''"
    by (simp_all add: is_arm_def is_left_def is_right_def)
  have vel: "default_velocity example_env ''left_s0'' \<noteq> 0"
      "default_velocity example_env ''right_s0'' \<noteq> 0"
    by (simp_all add: default_velocity_def get_param_def example_env_def vel_param_def
        param_ns_def)
  have k: "(\<exists>j\<in>set (split_comma (rstrip example_header)). is_arm j)
      \<and> (\<forall>j\<in>set (split_comma (rstrip example_header)).
            is_arm j \<longrightarrow> default_velocity example_env j \<noteq> 0)
      \<and> (\<forall>row\<in>set [''1.0,,0.1,50,50'']. row_time example_env row \<noteq> None)
      \<and> (\<exists>row\<in>set [''1.0,,0.1,50,50''].
            (\<exists>j\<in>set (split_comma (rstrip example_header)).
                is_arm j \<and> row_cmd example_env (split_comma (rstrip example_header)) row j = None)
            \<or> row_cmd example_env (split_comma (rstrip example_header)) row ''left_gripper''
                = None
            \<or> row_cmd example_env (split_comma (rstrip example_header)) row ''right_gripper''
                = None)"
    unfolding hdr using arm vel
    by (simp add: row_time_def row_cmd_def example_defs del: not_None_eq)
  note e1 = clean_line_excludes_parse_file_requires
    [where E = example_env and header = example_header and rows = "[''1.0,,0.1,50,50'']",
      THEN conjunct2, THEN conjunct2, THEN conjunct2, THEN conjunct2, THEN conjunct2,
      THEN conjunct1, THEN mp, OF k]
  have t: "(\<exists>j\<in>set (split_comma (rstrip example_header)). is_arm j)
      \<and> (\<forall>j\<in>set (split_comma (rstrip example_header)).
            is_arm j \<longrightarrow> default_velocity example_env j \<noteq> 0)
      \<and> (\<forall>row\<in>set [''1.0,0.6,0.1,50,50'', ''x,0.3,0.3,80,80''].
            (\<forall>j\<in>set (split_comma (rstrip example_header)).
                is_arm j \<longrightarrow>
                row_cmd example_env (split_comma (rstrip example_header)) row j \<noteq> None)
            \<and> row_cmd example_env (split_comma (rstrip example_header)) row ''left_gripper''
                \<noteq> None
            \<and> row_cmd example_env (split_comma (rstrip example_header)) row ''right_gripper''
                \<noteq> None)
      \<and> (\<exists>row\<in>set [''1.0,0.6,0.1,50,50'', ''x,0.3,0.3,80,80''].
            row_time example_env row = None)"
    unfolding hdr using arm vel
    by (simp add: row_time_def row_cmd_def example_defs del: not_None_eq)
  note e2 = clean_line_excludes_parse_file_requires
    [where E = example_env and header = example_header
      and rows = "[''1.0,0.6,0.1,50,50'', ''x,0.3,0.3,80,80'']",
      THEN conjunct2, THEN conjunct2, THEN conjunct2, THEN conjunct2, THEN conjunct2,
      THEN conjunct2, THEN conjunct1, THEN mp, OF t]
  show ?thesis
    by (intro conjI r1 r2 example_session_parsed row [THEN conjunct1] r3
        row [THEN conjunct2, THEN conjunct2, THEN conjunct2] e1 e2)
qed

lemma example_extra_column:
  "parse_file example_env
      [example_header @ '',head_pan'', ''1.0,0.6,0.1,50,50,'', ''3.0,0.3,0.3,80,80,zz'']
      new_trajectory
   = parse_file example_env example_file new_trajectory"
  unfolding example_parse by (simp add: example_defs)

end
